theory Spec2Isabelle
  imports Complex_Main "HOL-Library.Word"
begin

unbundle bit_operations_syntax

section \<open>Conventions\<close>

text \<open>
  The program is JavaScript. Its numbers are IEEE doubles; here they are real numbers
  (counters that only ever hold integers are \<open>int\<close>), so rounding and overflow are
  not part of the model, except for \<open>trimCurveToLength\<close>, which is also modelled in
  binary64 arithmetic because the statement about its result is one about rounding.
  Where the JavaScript arithmetic leaves the reals (a division by zero giving an
  infinity or NaN) the model says so explicitly instead of using HOL's
  \<open>x / 0 = 0\<close>.
\<close>

section \<open>Curve geometry (OsuParser.generateCurve and its helpers)\<close>

text \<open>
  A point is a pair of coordinates. A sample of a generated curve is \<open>Some\<close> point,
  or \<open>None\<close> for a point whose two coordinates are NaN (the program computes
  \<open>0 / 0\<close> or \<open>0 * Infinity\<close> for them). Coordinates read from a chart are taken
  to be finite numbers.
\<close>

type_synonym point = "real \<times> real"

type_synonym sample = "point option"

text \<open>
  Ways in which a run leaves the model: \<open>RangeError\<close> is the JavaScript exception
  of an unbounded recursion; \<open>NotFinite\<close> says that a result is an infinity or NaN
  where the model has a real number (a division by zero).
\<close>

datatype failure = RangeError | NotFinite

definition hypot :: "real \<Rightarrow> real \<Rightarrow> real" where
  "hypot a b = sqrt (a * a + b * b)"

definition lerpPoint :: "point \<Rightarrow> point \<Rightarrow> real \<Rightarrow> point" where
  "lerpPoint p1 p2 t = (fst p1 + (fst p2 - fst p1) * t, snd p1 + (snd p2 - snd p1) * t)"

subsection \<open>Linear\<close>

text \<open>
  With \<open>pointsPerSegment = 0\<close> (resolution 0) the parameter is \<open>0 / 0\<close>, NaN,
  and so are the coordinates.
\<close>

fun linearSegments :: "point list \<Rightarrow> nat \<Rightarrow> sample list" where
  "linearSegments (p1 # p2 # ps) pointsPerSegment =
     map (\<lambda>j. if pointsPerSegment = 0 then None
               else Some (lerpPoint p1 p2 (real j / real pointsPerSegment)))
         [0 ..< pointsPerSegment + 1]
     @ linearSegments (p2 # ps) pointsPerSegment"
| "linearSegments ps pointsPerSegment = []"

definition generateLinearCurve :: "point list \<Rightarrow> nat \<Rightarrow> sample list" where
  "generateLinearCurve points resolution =
     (if length points < 2 then map Some points
      else linearSegments points (nat \<lceil>real resolution / real (length points - 1)\<rceil>))"

subsection \<open>Bezier\<close>

fun splitLoop :: "point \<Rightarrow> point list \<Rightarrow> point list \<Rightarrow> point list list \<Rightarrow> point list list" where
  "splitLoop prev [] currentSegment segments =
     (if length currentSegment > 1 then segments @ [currentSegment] else segments)"
| "splitLoop prev (cur # rest) currentSegment segments =
     (if fst prev = fst cur \<and> snd prev = snd cur then
        splitLoop cur rest [cur]
          (if length currentSegment > 1 then segments @ [currentSegment] else segments)
      else splitLoop cur rest (currentSegment @ [cur]) segments)"

text \<open>The caller passes at least two points, so \<open>points[0]\<close> exists.\<close>

fun splitBezierSegments :: "point list \<Rightarrow> point list list" where
  "splitBezierSegments [] = [[]]"
| "splitBezierSegments (p0 # ps) =
     (let segments = splitLoop p0 ps [p0] []
      in if length segments > 0 then segments else [p0 # ps])"

fun deCasteljau :: "point list \<Rightarrow> real \<Rightarrow> point list" where
  "deCasteljau (p # q # ps) t = lerpPoint p q t # deCasteljau (q # ps) t"
| "deCasteljau ps t = []"

lemma length_deCasteljau [simp]: "length (deCasteljau ps t) = length ps - 1"
  by (induction ps t rule: deCasteljau.induct) auto

text \<open>
  On an empty list the JavaScript recursion never reaches a one-point list (it ends in
  a RangeError); this is the result \<open>None\<close>.
\<close>

function bezierPoint :: "point list \<Rightarrow> real \<Rightarrow> point option" where
  "bezierPoint points t =
     (if length points = 1 then Some (hd points)
      else if points = [] then None
      else bezierPoint (deCasteljau points t) t)"
  by pat_completeness auto
termination
  by (relation "measure (\<lambda>(points, t). length points)") (auto simp: Suc_lessI)

declare bezierPoint.simps [simp del]

text \<open>
  The sampling loop \<open>for (t = 0; t <= 1; t += 1 / resolution)\<close>, for a positive
  resolution, in exact arithmetic: the parameters are \<open>k / resolution\<close> for
  \<open>k = 0, ..., resolution\<close>, the last one 1. With doubles the rounded sum of the
  steps can pass 1 one step early, and then the sample at 1 is not taken: for the
  resolutions 100 (the one \<open>loadBeatmap\<close> passes) and 50 (the default) the program
  takes \<open>resolution\<close> samples of each sub-curve, not \<open>resolution + 1\<close>. Nothing
  below depends on which of the two counts it is. With resolution 0 the step is an
  infinity and only \<open>t = 0\<close> is sampled.
\<close>

function bezierLoop :: "point list \<Rightarrow> nat \<Rightarrow> real \<Rightarrow> failure + sample list" where
  "bezierLoop segment resolution t =
     (if 0 < resolution \<and> t \<le> 1 then
        (case bezierPoint segment t of
           None \<Rightarrow> Inl RangeError
         | Some p \<Rightarrow>
             (case bezierLoop segment resolution (t + 1 / real resolution) of
                Inl e \<Rightarrow> Inl e
              | Inr result \<Rightarrow> Inr (Some p # result)))
      else Inr [])"
  by pat_completeness auto
termination
proof (relation "measure (\<lambda>(segment, resolution, t). nat (\<lceil>(1 - t) * real resolution\<rceil> + 1))")
  show "wf (measure (\<lambda>(segment, resolution, t). nat (\<lceil>(1 - t) * real resolution\<rceil> + 1)))"
    by simp
next
  fix segment :: "point list" and resolution :: nat and t :: real and p :: point
  assume a: "0 < resolution \<and> t \<le> 1"
  then have r: "0 < real resolution" by simp
  have "(1 - (t + 1 / real resolution)) * real resolution = (1 - t) * real resolution - 1"
    using r by (simp add: field_simps)
  then have eq: "\<lceil>(1 - (t + 1 / real resolution)) * real resolution\<rceil>
                   = \<lceil>(1 - t) * real resolution\<rceil> - 1"
    by simp
  have "0 \<le> (1 - t) * real resolution" using a by simp
  then have "0 \<le> \<lceil>(1 - t) * real resolution\<rceil>" by simp
  then show "((segment, resolution, t + 1 / real resolution), (segment, resolution, t))
        \<in> measure (\<lambda>(segment, resolution, t). nat (\<lceil>(1 - t) * real resolution\<rceil> + 1))"
    using eq by simp
qed

declare bezierLoop.simps [simp del]

definition segmentSamples :: "point list \<Rightarrow> nat \<Rightarrow> failure + sample list" where
  "segmentSamples segment resolution =
     (if resolution = 0 then
        (case bezierPoint segment 0 of None \<Rightarrow> Inl RangeError | Some p \<Rightarrow> Inr [Some p])
      else bezierLoop segment resolution 0)"

fun bezierSegments :: "point list list \<Rightarrow> nat \<Rightarrow> failure + sample list" where
  "bezierSegments [] resolution = Inr []"
| "bezierSegments (segment # segments) resolution =
     (if length segment < 2 then bezierSegments segments resolution
      else
        (case segmentSamples segment resolution of
           Inl e \<Rightarrow> Inl e
         | Inr samples \<Rightarrow>
             (case bezierSegments segments resolution of
                Inl e \<Rightarrow> Inl e
              | Inr result \<Rightarrow> Inr (samples @ result))))"

definition generateBezierCurve :: "point list \<Rightarrow> nat \<Rightarrow> failure + sample list" where
  "generateBezierCurve points resolution =
     (if length points < 2 then Inr (map Some points)
      else bezierSegments (splitBezierSegments points) resolution)"

subsection \<open>Perfect circle\<close>

definition getCircleCenter :: "point \<Rightarrow> point \<Rightarrow> point \<Rightarrow> point option" where
  "getCircleCenter p1 p2 p3 =
     (let ax = fst p1; ay = snd p1; bx = fst p2; by = snd p2; cx = fst p3; cy = snd p3;
          d = 2 * (ax * (by - cy) + bx * (cy - ay) + cx * (ay - by))
      in if \<bar>d\<bar> < 0.0001 then None
         else
           (let ux = ((ax * ax + ay * ay) * (by - cy) + (bx * bx + by * by) * (cy - ay)
                        + (cx * cx + cy * cy) * (ay - by)) / d;
                uy = ((ax * ax + ay * ay) * (cx - bx) + (bx * bx + by * by) * (ax - cx)
                        + (cx * cx + cy * cy) * (bx - ax)) / d
            in Some (ux, uy)))"

definition atan2 :: "real \<Rightarrow> real \<Rightarrow> real" where
  "atan2 y x =
     (if x > 0 then arctan (y / x)
      else if x < 0 then (if y \<ge> 0 then arctan (y / x) + pi else arctan (y / x) - pi)
      else if y > 0 then pi / 2
      else if y < 0 then - pi / 2
      else 0)"

definition arcSamples :: "point \<Rightarrow> real \<Rightarrow> real \<Rightarrow> real \<Rightarrow> nat \<Rightarrow> sample list" where
  "arcSamples center radius startAngle angleDiff resolution =
     map (\<lambda>i. if resolution = 0 then None
               else
                 (let t = real i / real resolution;
                      angle = startAngle + angleDiff * t
                  in Some (fst center + radius * cos angle, snd center + radius * sin angle)))
         [0 ..< resolution + 1]"

definition generatePerfectCircleCurve :: "point list \<Rightarrow> nat \<Rightarrow> sample list" where
  "generatePerfectCircleCurve points resolution =
     (if length points < 3 then generateLinearCurve points resolution
      else
        (let p1 = points ! 0; p2 = points ! 1; p3 = points ! 2 in
         case getCircleCenter p1 p2 p3 of
           None \<Rightarrow> generateLinearCurve points resolution
         | Some center \<Rightarrow>
             (let radius = hypot (fst p1 - fst center) (snd p1 - snd center);
                  startAngle = atan2 (snd p1 - snd center) (fst p1 - fst center);
                  endAngle = atan2 (snd p3 - snd center) (fst p3 - fst center);
                  cross = (fst p2 - fst p1) * (snd p3 - snd p1)
                            - (snd p2 - snd p1) * (fst p3 - fst p1);
                  clockwise = (cross < 0);
                  angleDiff0 = endAngle - startAngle;
                  angleDiff =
                    (if clockwise
                     then (if angleDiff0 > 0 then angleDiff0 - 2 * pi else angleDiff0)
                     else (if angleDiff0 < 0 then angleDiff0 + 2 * pi else angleDiff0))
              in arcSamples center radius startAngle angleDiff resolution)))"

subsection \<open>Trimming to the target length\<close>

fun segmentLength :: "sample \<Rightarrow> sample \<Rightarrow> real option" where
  "segmentLength (Some prev) (Some cur) = Some (hypot (fst cur - fst prev) (snd cur - snd prev))"
| "segmentLength prev cur = None"

text \<open>
  The loop of \<open>trimCurveToLength\<close>; \<open>currentLength\<close> is \<open>None\<close> once it is NaN,
  and a comparison with NaN is false. In the branch that interpolates, a segment of
  length 0 makes \<open>t\<close> an infinity or NaN, and the new point \<open>prev + 0 * t\<close> NaN.
\<close>

fun trimLoop :: "sample \<Rightarrow> sample list \<Rightarrow> real option \<Rightarrow> real \<Rightarrow> sample list" where
  "trimLoop prev [] currentLength targetLength = []"
| "trimLoop prev (cur # rest) currentLength targetLength =
     (case (currentLength, segmentLength prev cur, prev, cur) of
        (Some len, Some seg, Some p, Some c) \<Rightarrow>
          (if len + seg \<ge> targetLength then
             (let remaining = targetLength - len
              in [if seg = 0 then None else Some (lerpPoint p c (remaining / seg))])
           else cur # trimLoop cur rest (Some (len + seg)) targetLength)
      | _ \<Rightarrow> cur # trimLoop cur rest None targetLength)"

definition trimCurveToLength :: "sample list \<Rightarrow> real \<Rightarrow> sample list" where
  "trimCurveToLength points targetLength =
     (if length points < 2 then points
      else hd points # trimLoop (hd points) (tl points) (Some 0) targetLength)"

subsection \<open>generateCurve\<close>

definition sampleCurve :: "string \<Rightarrow> point list \<Rightarrow> nat \<Rightarrow> failure + sample list" where
  "sampleCurve curveType allPoints resolution =
     (if curveType = ''L'' then Inr (generateLinearCurve allPoints resolution)
      else if curveType = ''P'' then Inr (generatePerfectCircleCurve allPoints resolution)
      else generateBezierCurve allPoints resolution)"

definition generateCurve ::
  "string \<Rightarrow> real \<Rightarrow> real \<Rightarrow> point list \<Rightarrow> real \<Rightarrow> nat \<Rightarrow> failure + sample list" where
  "generateCurve curveType startX startY controlPoints targetLength resolution =
     (let allPoints = (startX, startY) # controlPoints
      in case sampleCurve curveType allPoints resolution of
           Inl e \<Rightarrow> Inl e
         | Inr curvePoints \<Rightarrow> Inr (trimCurveToLength curvePoints targetLength))"

text \<open>The cumulative polyline length of a sample list; \<open>None\<close> when it is NaN.\<close>

fun curveLength :: "sample list \<Rightarrow> real option" where
  "curveLength (a # b # rest) =
     (case (segmentLength a b, curveLength (b # rest)) of
        (Some l, Some r) \<Rightarrow> Some (l + r)
      | _ \<Rightarrow> None)"
| "curveLength ps = Some 0"

section \<open>trimCurveToLength in binary64 arithmetic\<close>

text \<open>
  The statement about the length of the trimmed curve is a statement about rounding,
  so \<open>trimCurveToLength\<close> is modelled a second time, with every arithmetic operation
  rounded as IEEE 754 binary64 rounds it. A double is the real number it denotes.
  \<open>rne\<close> rounds to the nearest integer, ties to the even one. \<open>binade\<close> is the
  exponent of the binade of a number, not below that of the subnormal numbers, and
  \<open>quantum\<close> the distance of neighbouring doubles there. \<open>roundDouble\<close> rounds to
  the nearest double as if the exponent range were unbounded above; a result beyond
  the largest finite double is the overflow to an infinity, which \<open>toDouble\<close> reports
  as \<open>NotFinite\<close>.
\<close>

definition rne :: "real \<Rightarrow> int" where
  "rne x =
     (let f = \<lfloor>x\<rfloor>; r = x - of_int f
      in if r < 1 / 2 then f
         else if 1 / 2 < r then f + 1
         else if even f then f else f + 1)"

definition binade :: "real \<Rightarrow> int" where
  "binade x = max \<lfloor>log 2 \<bar>x\<bar>\<rfloor> (- 1022)"

definition quantum :: "real \<Rightarrow> real" where
  "quantum x = 2 powr real_of_int (binade x - 52)"

definition roundDouble :: "real \<Rightarrow> real" where
  "roundDouble x = (if x = 0 then 0 else real_of_int (rne (x / quantum x)) * quantum x)"

definition maxDouble :: real where
  "maxDouble = (2 ^ 53 - 1) * 2 ^ 971"

definition toDouble :: "real \<Rightarrow> failure + real" where
  "toDouble x = (let y = roundDouble x in if maxDouble < \<bar>y\<bar> then Inl NotFinite else Inr y)"

text \<open>\<open>result.push(s)\<close> in front of the rest of a run that may leave the model.\<close>

definition consD :: "sample \<Rightarrow> failure + sample list \<Rightarrow> failure + sample list" where
  "consD s r = (case r of Inl e \<Rightarrow> Inl e | Inr out \<Rightarrow> Inr (s # out))"





text \<open>
  What is assumed of \<open>Math.hypot\<close> on arguments of magnitude up to \<open>2 ^ 20\<close>: a
  finite result that is not negative, within 4 units in the last place
  (\<open>2 ^ -50\<close> relative) of the hypotenuse, or within the least positive double of it
  for a result in the subnormal range. \<open>tiny\<close> is the half of the least positive
  double. \<open>roundedHypot\<close> is the most accurate such function, the correctly rounded
  hypotenuse.
\<close>

definition tiny :: real where
  "tiny = 2 powr (- 1075)"




section \<open>Session statistics, accuracy and grade (osu-data.js)\<close>

record game_stats =
  score :: int
  combo :: int
  maxCombo :: int
  hit300 :: int
  hit100 :: int
  hit50 :: int
  misses :: int
  health :: real
  failed :: bool

definition createEmptyStats :: game_stats where
  "createEmptyStats =
     \<lparr>score = 0, combo = 0, maxCombo = 0, hit300 = 0, hit100 = 0, hit50 = 0,
      misses = 0, health = 100, failed = False\<rparr>"

definition calculateAccuracy :: "game_stats \<Rightarrow> real" where
  "calculateAccuracy s =
     (let total = hit300 s + hit100 s + hit50 s + misses s in
      if total = 0 then 100
      else
        (let weighted = hit300 s * 300 + hit100 s * 100 + hit50 s * 50
         in (real_of_int weighted / real_of_int (total * 300)) * 100))"

definition calculateGrade :: "game_stats \<Rightarrow> string" where
  "calculateGrade s =
     (let total = hit300 s + hit100 s + hit50 s + misses s in
      if total = 0 then ''D''
      else
        (let accuracy = calculateAccuracy s;
             ratio300 = real_of_int (hit300 s) / real_of_int total;
             ratio50 = real_of_int (hit50 s) / real_of_int total
         in if accuracy = 100 then ''S''
            else if ratio300 > 0.9 \<and> ratio50 < 0.01 \<and> misses s = 0 then ''S''
            else if (ratio300 > 0.8 \<and> misses s = 0) \<or> ratio300 > 0.9 then ''A''
            else if (ratio300 > 0.7 \<and> misses s = 0) \<or> ratio300 > 0.8 then ''B''
            else if ratio300 > 0.6 then ''C''
            else ''D''))"

section \<open>Tempo resolution (osu-data.js, getBeatLengthAtTime)\<close>

text \<open>
  A timing point as \<open>parseTimingPoints\<close> builds it; only the fields the resolver
  reads are kept (\<open>bpm\<close> and \<open>meter\<close> are not read by it). The parser sets
  \<open>inherited\<close> to \<open>msPerBeat < 0\<close>.
\<close>

record timing_point =
  offset :: real
  msPerBeat :: real
  inherited :: bool

definition timingPoint :: "real \<Rightarrow> real \<Rightarrow> timing_point" where
  "timingPoint off mpb = \<lparr>offset = off, msPerBeat = mpb, inherited = (mpb < 0)\<rparr>"

text \<open>
  The velocity multiplier is \<open>-100 / msPerBeat\<close>. In JavaScript a zero divisor
  gives an infinity, and a finite number divided by an infinity is a zero.
\<close>

datatype multiplier = Finite real | Infinite

definition velocityOf :: "real \<Rightarrow> multiplier" where
  "velocityOf mpb = (if mpb = 0 then Infinite else Finite (- 100 / mpb))"

fun scanTimingPoints ::
  "timing_point list \<Rightarrow> real \<Rightarrow> real \<times> multiplier \<Rightarrow> real \<times> multiplier" where
  "scanTimingPoints [] time st = st"
| "scanTimingPoints (tp # tps) time (beatLength, currentMultiplier) =
     (if offset tp > time then (beatLength, currentMultiplier)
      else if \<not> inherited tp then scanTimingPoints tps time (msPerBeat tp, currentMultiplier)
      else scanTimingPoints tps time (beatLength, velocityOf (msPerBeat tp)))"

fun beatQuotient :: "real \<times> multiplier \<Rightarrow> real" where
  "beatQuotient (beatLength, Finite m) = beatLength / m"
| "beatQuotient (beatLength, Infinite) = 0"

definition getBeatLengthAtTime :: "timing_point list option \<Rightarrow> real \<Rightarrow> real" where
  "getBeatLengthAtTime timingPoints time =
     (case timingPoints of
        None \<Rightarrow> 500
      | Some tps \<Rightarrow> beatQuotient (scanTimingPoints tps time (500, Finite 1)))"

text \<open>
  The resolver as the specification words it: every point whose offset is at most the
  query time is applied, in file order, to the state (base 500, multiplier 1).
\<close>

fun applyPoint :: "real \<times> multiplier \<Rightarrow> timing_point \<Rightarrow> real \<times> multiplier" where
  "applyPoint (base, mult) tp =
     (if inherited tp then (base, velocityOf (msPerBeat tp)) else (msPerBeat tp, mult))"

definition applyAll :: "timing_point list \<Rightarrow> real" where
  "applyAll tps = beatQuotient (foldl applyPoint (500, Finite 1) tps)"

definition beatLengthAt_spec :: "timing_point list \<Rightarrow> real \<Rightarrow> real" where
  "beatLengthAt_spec tps time = applyAll (filter (\<lambda>tp. offset tp \<le> time) tps)"


section \<open>Difficulty-derived constants (OsuParser)\<close>

record difficulty =
  hpDrainRate :: real
  circleSize :: real
  overallDifficulty :: real
  approachRate :: real
  sliderMultiplier :: real
  sliderTickRate :: real

text \<open>
  The object returned by \<open>getHitWindows\<close> has the keys hit300, hit100 and hit50; the
  fields are named \<open>window300\<close>, \<open>window100\<close>, \<open>window50\<close> here because the
  statistics already have counters of those names.
\<close>

record hit_windows =
  window300 :: real
  window100 :: real
  window50 :: real

definition getApproachTime :: "real \<Rightarrow> real" where
  "getApproachTime ar = (if ar < 5 then 1800 - ar * 120 else 1200 - (ar - 5) * 150)"

definition getHitWindows :: "real \<Rightarrow> hit_windows" where
  "getHitWindows od =
     \<lparr>window300 = 80 - 6 * od, window100 = 140 - 8 * od, window50 = 200 - 10 * od\<rparr>"

definition getCircleRadius :: "real \<Rightarrow> real" where
  "getCircleRadius cs = 54.4 - 4.48 * cs"

section \<open>Chart parser (OsuParser)\<close>

text \<open>
  Strings are lists of 8-bit characters, read as the code points below 256; a text
  with any other character is outside the type. \<open>String.prototype.trim\<close> removes
  white space and line terminators; below 256 these are the code points 0x09 to 0x0D,
  0x20 and 0xA0. The built-in conversions \<open>parseInt\<close> and \<open>parseFloat\<close> are
  arguments of the functions that call them; their result \<open>None\<close> is NaN.
\<close>

definition isSpace :: "char \<Rightarrow> bool" where
  "isSpace c = (c \<in> {CHR '' '', CHR 0x09, CHR 0x0A, CHR 0x0B, CHR 0x0C, CHR 0x0D, CHR 0xA0})"

definition trim :: "string \<Rightarrow> string" where
  "trim s = rev (dropWhile isSpace (rev (dropWhile isSpace s)))"

text \<open>\<open>s.split(sep)\<close> for a one-character separator.\<close>

fun splitOn :: "char \<Rightarrow> string \<Rightarrow> string list" where
  "splitOn sep [] = [[]]"
| "splitOn sep (c # cs) =
     (if c = sep then [] # splitOn sep cs
      else (case splitOn sep cs of
              w # ws \<Rightarrow> (c # w) # ws
            | [] \<Rightarrow> [[c]]))"

text \<open>\<open>s.indexOf(c)\<close>: the position of the first occurrence, or -1.\<close>

fun indexOf :: "char \<Rightarrow> string \<Rightarrow> int" where
  "indexOf c [] = - 1"
| "indexOf c (x # xs) =
     (if x = c then 0
      else (let i = indexOf c xs in if i = - 1 then - 1 else i + 1))"

subsection \<open>Key/value sections\<close>

record general =
  audioFilename :: string
  audioLeadIn :: int
  previewTime :: int
  mode :: int

record metadata =
  title :: string
  artist :: string
  creator :: string
  version :: string
  tags :: string

text \<open>
  The loop body of \<open>parseGeneral\<close>:
  \<open>[key, value] = line.split(':').map(s => s.trim())\<close>, stored when the key is not
  empty and a second part exists.
\<close>

definition generalStep :: "(string \<rightharpoonup> string) \<Rightarrow> string \<Rightarrow> (string \<rightharpoonup> string)" where
  "generalStep entries line =
     (case map trim (splitOn CHR '':'' line) of
        key # value # others \<Rightarrow> if key \<noteq> [] then entries(key \<mapsto> value) else entries
      | _ \<Rightarrow> entries)"

definition intOrZero :: "(string \<Rightarrow> int option) \<Rightarrow> string option \<Rightarrow> int" where
  "intOrZero parseInt v =
     (case v of
        None \<Rightarrow> 0
      | Some s \<Rightarrow> (case parseInt s of None \<Rightarrow> 0 | Some n \<Rightarrow> n))"

definition parseGeneral :: "(string \<Rightarrow> int option) \<Rightarrow> string list \<Rightarrow> general" where
  "parseGeneral parseInt lines =
     (let entries = foldl generalStep Map.empty lines
      in \<lparr>audioFilename = (case entries ''AudioFilename'' of None \<Rightarrow> [] | Some v \<Rightarrow> v),
          audioLeadIn = intOrZero parseInt (entries ''AudioLeadIn''),
          previewTime = intOrZero parseInt (entries ''PreviewTime''),
          mode = intOrZero parseInt (entries ''Mode'')\<rparr>)"

text \<open>The loop body of \<open>parseMetadata\<close>, which cuts the line at \<open>indexOf(':')\<close>.\<close>

definition metadataStep :: "(string \<rightharpoonup> string) \<Rightarrow> string \<Rightarrow> (string \<rightharpoonup> string)" where
  "metadataStep entries line =
     (let colonIndex = indexOf CHR '':'' line
      in if colonIndex > - 1 then
           (let key = trim (take (nat colonIndex) line);
                value = trim (drop (nat (colonIndex + 1)) line)
            in entries(key \<mapsto> value))
         else entries)"

definition textOr :: "string \<Rightarrow> string option \<Rightarrow> string" where
  "textOr fallback v = (case v of None \<Rightarrow> fallback | Some s \<Rightarrow> if s = [] then fallback else s)"

definition parseMetadata :: "string list \<Rightarrow> metadata" where
  "parseMetadata lines =
     (let entries = foldl metadataStep Map.empty lines
      in \<lparr>title = textOr ''Unknown'' (entries ''Title''),
          artist = textOr ''Unknown'' (entries ''Artist''),
          creator = textOr ''Unknown'' (entries ''Creator''),
          version = textOr ''Normal'' (entries ''Version''),
          tags = textOr [] (entries ''Tags'')\<rparr>)"

text \<open>
  The loop body of \<open>parseDifficulty\<close>; the stored value is \<open>parseFloat(value)\<close>,
  which may be NaN. \<open>x || d\<close> is \<open>d\<close> when \<open>x\<close> is undefined, NaN or 0.
\<close>

definition difficultyStep ::
  "(string \<Rightarrow> real option) \<Rightarrow> (string \<rightharpoonup> real option) \<Rightarrow> string
     \<Rightarrow> (string \<rightharpoonup> real option)" where
  "difficultyStep parseFloat entries line =
     (case map trim (splitOn CHR '':'' line) of
        key # value # others \<Rightarrow>
          if key \<noteq> [] then entries(key \<mapsto> parseFloat value) else entries
      | _ \<Rightarrow> entries)"

definition numberOr :: "real \<Rightarrow> real option option \<Rightarrow> real" where
  "numberOr fallback v =
     (case v of Some (Some x) \<Rightarrow> if x = 0 then fallback else x | _ \<Rightarrow> fallback)"

definition parseDifficulty :: "(string \<Rightarrow> real option) \<Rightarrow> string list \<Rightarrow> difficulty" where
  "parseDifficulty parseFloat lines =
     (let entries = foldl (difficultyStep parseFloat) Map.empty lines
      in \<lparr>hpDrainRate = numberOr 5 (entries ''HPDrainRate''),
          circleSize = numberOr 4 (entries ''CircleSize''),
          overallDifficulty = numberOr 5 (entries ''OverallDifficulty''),
          approachRate =
            numberOr (numberOr 5 (entries ''OverallDifficulty'')) (entries ''ApproachRate''),
          sliderMultiplier = numberOr 1.4 (entries ''SliderMultiplier''),
          sliderTickRate = numberOr 1 (entries ''SliderTickRate'')\<rparr>)"

text \<open>
  The key and the value of a line as the specification words them: the trimmed text
  before the first colon, and the whole trimmed remainder after it.
\<close>

definition keyValue_spec :: "string \<Rightarrow> string \<times> string" where
  "keyValue_spec line =
     (trim (takeWhile (\<lambda>c. c \<noteq> CHR '':'') line),
      trim (drop 1 (dropWhile (\<lambda>c. c \<noteq> CHR '':'') line)))"

subsection \<open>Hit objects\<close>

datatype object_type = Circle | Slider

text \<open>
  One line of the HitObjects section after \<open>split(',')\<close> and the numeric
  conversions: the number of parts, \<open>parseInt\<close> of parts 0 to 4, and for a slider the
  curve type (\<open>curveParts[0]\<close>), the control points that passed the \<open>isNaN\<close>
  test, \<open>parseInt(parts[6])\<close> and \<open>parseFloat(parts[7])\<close>. The type is the
  integer the bit operations see (NaN counts as 0 there); \<open>None\<close> is NaN; x, y and
  time are taken to be numbers.
\<close>

record object_fields =
  partsCount :: nat
  fieldX :: real
  fieldY :: real
  fieldTime :: real
  fieldType :: int
  fieldHitSound :: "int option"
  fieldCurveType :: string
  fieldControlPoints :: "point list"
  fieldSlides :: "int option"
  fieldLength :: "real option"

text \<open>
  A parsed object. The keys x, y, time, type, slides and length are called \<open>pX\<close>,
  \<open>pY\<close>, \<open>pTime\<close>, \<open>pType\<close>, \<open>pSlides\<close>, \<open>pLength\<close>. A circle has no
  slider keys; they hold the values given in \<open>circleObject\<close>, which nothing reads.
\<close>

record parsed_object =
  pX :: real
  pY :: real
  pTime :: real
  pType :: object_type
  hitSound :: int
  isNewCombo :: bool
  comboNumber :: nat
  comboColorIndex :: nat
  curveType :: string
  controlPoints :: "point list"
  pSlides :: int
  pLength :: real

definition circleObject :: "object_fields \<Rightarrow> bool \<Rightarrow> nat \<Rightarrow> nat \<Rightarrow> parsed_object" where
  "circleObject l newCombo number colorIndex =
     \<lparr>pX = fieldX l, pY = fieldY l, pTime = fieldTime l, pType = Circle,
      hitSound = (case fieldHitSound l of None \<Rightarrow> 0 | Some h \<Rightarrow> h),
      isNewCombo = newCombo, comboNumber = number, comboColorIndex = colorIndex,
      curveType = [], controlPoints = [], pSlides = 0, pLength = 0\<rparr>"

definition sliderObject :: "object_fields \<Rightarrow> bool \<Rightarrow> nat \<Rightarrow> nat \<Rightarrow> parsed_object" where
  "sliderObject l newCombo number colorIndex =
     \<lparr>pX = fieldX l, pY = fieldY l, pTime = fieldTime l, pType = Slider,
      hitSound = (case fieldHitSound l of None \<Rightarrow> 0 | Some h \<Rightarrow> h),
      isNewCombo = newCombo, comboNumber = number, comboColorIndex = colorIndex,
      curveType = (if fieldCurveType l = [] then ''B'' else fieldCurveType l),
      controlPoints = fieldControlPoints l,
      pSlides = (case fieldSlides l of None \<Rightarrow> 1 | Some n \<Rightarrow> if n = 0 then 1 else n),
      pLength = (case fieldLength l of None \<Rightarrow> 100 | Some x \<Rightarrow> if x = 0 then 100 else x)\<rparr>"

fun objectLoop :: "object_fields list \<Rightarrow> nat \<Rightarrow> nat \<Rightarrow> nat \<Rightarrow> parsed_object list" where
  "objectLoop [] number colorIndex safeComboColorCount = []"
| "objectLoop (l # ls) number colorIndex safeComboColorCount =
     (if partsCount l < 4 then objectLoop ls number colorIndex safeComboColorCount
      else
        (let type = fieldType l;
             isCircle = (type AND 1 \<noteq> 0);
             isSlider = (type AND 2 \<noteq> 0);
             isSpinner = (type AND 8 \<noteq> 0);
             newCombo = (type AND 4 \<noteq> 0)
         in if isSpinner then objectLoop ls number colorIndex safeComboColorCount
            else
              (let number' = (if newCombo then 1 else number + 1);
                   comboSkip = nat (drop_bit 4 type AND 7);
                   colorIndex' =
                     (if newCombo then (colorIndex + 1 + comboSkip) mod safeComboColorCount
                      else colorIndex)
               in (if isCircle \<and> \<not> isSlider then [circleObject l newCombo number' colorIndex']
                   else [])
                  @ (if isSlider then [sliderObject l newCombo number' colorIndex'] else [])
                  @ objectLoop ls number' colorIndex' safeComboColorCount)))"

definition parseHitObjects :: "object_fields list \<Rightarrow> nat \<Rightarrow> parsed_object list" where
  "parseHitObjects lines comboColorCount = objectLoop lines 0 0 (max 1 comboColorCount)"

text \<open>
  The numbering the specification describes, for a list of parsed objects and the
  number before the first of them: each object either starts a new combo with number
  1, or has the number of the object before it plus 1.
\<close>

fun comboChain :: "nat \<Rightarrow> parsed_object list \<Rightarrow> bool" where
  "comboChain previous [] = True"
| "comboChain previous (obj # rest) =
     (((isNewCombo obj \<and> comboNumber obj = 1) \<or> comboNumber obj = previous + 1)
      \<and> comboChain (comboNumber obj) rest)"

section \<open>The judgement engine (osu-data.js, class OsuGame)\<close>

datatype hit_state = PENDING | ACTIVE | HIT_300 | HIT_100 | HIT_50 | MISS | SLIDING

text \<open>
  A hit object of the session, with the slider fields \<open>loadBeatmap\<close> adds. The fields
  x, y, time and type are called \<open>objX\<close>, \<open>objY\<close>, \<open>objTime\<close>, \<open>objType\<close>.
  The curve samples are only read by \<open>getSliderBallPosition\<close>, which is an
  argument of \<open>updateSliders\<close> below. The keys that only rendering reads (the
  combo number and colour, the end position, the ball position) are left out.
\<close>

record hit_object =
  objX :: real
  objY :: real
  objTime :: real
  objType :: object_type
  state :: hit_state
  slides :: int
  slideDuration :: real
  totalDuration :: real
  tracking :: bool
  trackingBroken :: bool
  startHitValue :: int
  ticksHit :: int
  ticksPerSlide :: int
  totalTicks :: int
  tickSpacing :: real
  endHit :: bool
  curvePoints :: "sample list"

text \<open>
  The mutable session state. The objects live in \<open>hitObjects\<close>; \<open>activeObjects\<close>
  holds references to them, modelled as indices into \<open>hitObjects\<close>, so that a change
  to an object is seen through both arrays as in the program. The feedback list, the
  timers and the audio element serve rendering and playback only and are left out; the
  current audio time, the cursor position (in playfield coordinates) and the held-input
  flag are arguments of the functions that read them.
\<close>

record game =
  stats :: game_stats
  beatmapDifficulty :: difficulty
  hitObjects :: "hit_object list"
  activeObjects :: "nat list"
  nextObjectIndex :: nat

definition removeActiveObject :: "game \<Rightarrow> nat \<Rightarrow> game" where
  "removeActiveObject g k = g\<lparr>activeObjects := remove1 k (activeObjects g)\<rparr>"

definition setObject :: "game \<Rightarrow> nat \<Rightarrow> hit_object \<Rightarrow> game" where
  "setObject g k obj = g\<lparr>hitObjects := (hitObjects g)[k := obj]\<rparr>"

definition getDifficultyMultiplier :: "game \<Rightarrow> int" where
  "getDifficultyMultiplier g =
     (let d = beatmapDifficulty g
      in round ((hpDrainRate d + circleSize d + overallDifficulty d) / 3))"

definition startSlider :: "game \<Rightarrow> nat \<Rightarrow> int \<Rightarrow> game" where
  "startSlider g k startValue =
     (let slider = hitObjects g ! k;
          g1 = setObject g k
                 (slider\<lparr>state := SLIDING, tracking := True, trackingBroken := False,
                         startHitValue := startValue\<rparr>);
          baseScore = \<lfloor>real_of_int startValue / 3\<rfloor>;
          s = stats g1;
          s1 = s\<lparr>score := score s + baseScore\<rparr>;
          s2 = s1\<lparr>combo := combo s1 + 1\<rparr>;
          s3 = s2\<lparr>maxCombo := max (maxCombo s2) (combo s2)\<rparr>
      in g1\<lparr>stats := s3\<rparr>)"

definition processHit :: "game \<Rightarrow> nat \<Rightarrow> int \<Rightarrow> game" where
  "processHit g k hitValue =
     (let s = stats g;
          s1 = (if hitValue = 300 then s\<lparr>hit300 := hit300 s + 1\<rparr>
                else if hitValue = 100 then s\<lparr>hit100 := hit100 s + 1\<rparr>
                else s\<lparr>hit50 := hit50 s + 1\<rparr>);
          s2 = s1\<lparr>combo := combo s1 + 1\<rparr>;
          s3 = s2\<lparr>maxCombo := max (maxCombo s2) (combo s2)\<rparr>;
          multiplier = getDifficultyMultiplier g;
          s4 = s3\<lparr>score := score s3
                  + (hitValue
                     + \<lfloor>real_of_int hitValue * real_of_int (combo s3)
                          * real_of_int multiplier * 0.01\<rfloor>)\<rparr>;
          s5 = s4\<lparr>health := min 100 (health s4 + real_of_int hitValue / 50)\<rparr>
      in removeActiveObject (g\<lparr>stats := s5\<rparr>) k)"

definition processMiss :: "game \<Rightarrow> nat \<Rightarrow> game" where
  "processMiss g k =
     (let g1 = setObject g k ((hitObjects g ! k)\<lparr>state := MISS\<rparr>);
          s = stats g1;
          s1 = s\<lparr>misses := misses s + 1\<rparr>;
          s2 = s1\<lparr>combo := 0\<rparr>;
          s3 = s2\<lparr>health := max 0 (health s2 - 8)\<rparr>
      in removeActiveObject (g1\<lparr>stats := s3\<rparr>) k)"

definition processSliderMiss :: "game \<Rightarrow> nat \<Rightarrow> game" where
  "processSliderMiss g k =
     (let g1 = setObject g k ((hitObjects g ! k)\<lparr>state := MISS\<rparr>);
          s = stats g1;
          s1 = s\<lparr>misses := misses s + 1\<rparr>;
          s2 = s1\<lparr>combo := 0\<rparr>;
          s3 = s2\<lparr>health := max 0 (health s2 - 8)\<rparr>
      in removeActiveObject (g1\<lparr>stats := s3\<rparr>) k)"


text \<open>The block of \<open>updateSliders\<close> that runs when tracking is lost.\<close>

definition breakTracking :: "game \<Rightarrow> nat \<Rightarrow> game" where
  "breakTracking g k =
     (let g1 = setObject g k ((hitObjects g ! k)\<lparr>tracking := False, trackingBroken := True\<rparr>);
          s = stats g1
      in g1\<lparr>stats := s\<lparr>combo := 0\<rparr>\<rparr>)"

text \<open>
  \<open>getPassedSliderTicks\<close>. Past the guard the function divides by
  \<open>slideDuration\<close>. With a zero \<open>slideDuration\<close> and a positive elapsed time the
  quotient is an infinity: \<open>Math.min\<close> then makes \<open>completedSlides\<close> the slide
  count, the branch for an unfinished slide is skipped, and the result is
  \<open>min totalTicks (slides * ticksPerSlide)\<close>. With a zero elapsed time the quotient
  is \<open>0 / 0\<close>, every later value is NaN, and so is the result: this is \<open>None\<close>.
  (\<open>loadBeatmap\<close> sets \<open>tickSpacing = slideDuration / (ticksPerSlide + 1)\<close>, so a
  slider it prepared that passes the guard has a positive \<open>slideDuration\<close>.)
\<close>

definition getPassedSliderTicks :: "hit_object \<Rightarrow> real \<Rightarrow> int option" where
  "getPassedSliderTicks slider elapsed =
     (if ticksPerSlide slider \<le> 0 \<or> tickSpacing slider \<le> 0 then Some 0
      else if slideDuration slider = 0 then
        (if 0 < max 0 (min elapsed (totalDuration slider)) then
           Some (min (totalTicks slider) (slides slider * ticksPerSlide slider))
         else None)
      else
        (let clampedElapsed = max 0 (min elapsed (totalDuration slider));
             completedSlides = min (slides slider) \<lfloor>clampedElapsed / slideDuration slider\<rfloor>;
             passed = completedSlides * ticksPerSlide slider;
             passed' =
               (if completedSlides < slides slider then
                  (let elapsedInSlide =
                         clampedElapsed - real_of_int completedSlides * slideDuration slider;
                       inSlideTicks =
                         min (ticksPerSlide slider) \<lfloor>elapsedInSlide / tickSpacing slider\<rfloor>
                   in passed + inSlideTicks)
                else passed)
         in Some (min (totalTicks slider) passed')))"

text \<open>
  The tick block of \<open>updateSliders\<close>; \<open>tickStats\<close> is what it does to the
  statistics. A NaN count of passed ticks makes \<open>newTicks\<close> NaN, and \<open>NaN > 0\<close>
  is false: nothing is awarded.
\<close>

definition tickStats :: "int \<Rightarrow> game_stats \<Rightarrow> game_stats" where
  "tickStats newTicks s =
     (let s1 = s\<lparr>score := score s + 10 * newTicks\<rparr>;
          s2 = s1\<lparr>combo := combo s1 + newTicks\<rparr>;
          s3 = s2\<lparr>maxCombo := max (maxCombo s2) (combo s2)\<rparr>
      in s3\<lparr>health := min 100 (health s3 + real_of_int newTicks)\<rparr>)"

definition awardTicks :: "game \<Rightarrow> nat \<Rightarrow> real \<Rightarrow> game" where
  "awardTicks g k clampedElapsed =
     (let obj = hitObjects g ! k in
      if tracking obj \<and> \<not> trackingBroken obj \<and> totalTicks obj > 0 then
        (case getPassedSliderTicks obj clampedElapsed of
           None \<Rightarrow> g
         | Some passedTicks \<Rightarrow>
             (let newTicks = max 0 (min (totalTicks obj) passedTicks - ticksHit obj) in
              if newTicks > 0 then
                (let g1 = setObject g k (obj\<lparr>ticksHit := ticksHit obj + newTicks\<rparr>)
                 in g1\<lparr>stats := tickStats newTicks (stats g1)\<rparr>)
              else g))
      else g)"

text \<open>The tick ratio of \<open>completeSlider\<close> and the final value it computes from it.\<close>

definition sliderTickRatio :: "hit_object \<Rightarrow> real" where
  "sliderTickRatio slider =
     (let maxTicks = totalTicks slider * slides slider
      in if maxTicks > 0 then real_of_int (ticksHit slider) / real_of_int maxTicks else 1)"

definition sliderHitValue :: "hit_object \<Rightarrow> int" where
  "sliderHitValue slider =
     (let tickRatio = sliderTickRatio slider
      in if tickRatio \<ge> 0.9 \<and> \<not> trackingBroken slider then 300
         else if tickRatio \<ge> 0.5 then 100
         else if tickRatio > 0 then 50
         else 0)"

text \<open>
  \<open>completeSlider\<close>; \<open>completionStats\<close> is what it does to the statistics: the
  end bonus, the counter of the final value, and the health.
\<close>

definition completionStats :: "hit_object \<Rightarrow> game_stats \<Rightarrow> game_stats" where
  "completionStats slider s =
     (let s1 = (if tracking slider \<and> \<not> trackingBroken slider
                then s\<lparr>score := score s + 30\<rparr> else s);
          hitValue = sliderHitValue slider;
          s2 = (if hitValue = 300 then s1\<lparr>hit300 := hit300 s1 + 1\<rparr>
                else if hitValue = 100 then s1\<lparr>hit100 := hit100 s1 + 1\<rparr>
                else if hitValue = 50 then s1\<lparr>hit50 := hit50 s1 + 1\<rparr>
                else s1\<lparr>misses := misses s1 + 1, combo := 0\<rparr>)
      in if hitValue > 0
         then s2\<lparr>health := min 100 (health s2 + real_of_int hitValue / 50)\<rparr>
         else s2\<lparr>health := max 0 (health s2 - 5)\<rparr>)"

definition completeSlider :: "game \<Rightarrow> nat \<Rightarrow> game" where
  "completeSlider g k =
     (let slider0 = (hitObjects g ! k)\<lparr>state := HIT_300\<rparr>;
          slider = (if tracking slider0 \<and> \<not> trackingBroken slider0
                    then slider0\<lparr>endHit := True\<rparr> else slider0);
          g1 = setObject g k slider
      in removeActiveObject (g1\<lparr>stats := completionStats slider (stats g1)\<rparr>) k)"

text \<open>
  \<open>processHitAtPosition\<close>: the active objects are tried from the oldest to the
  newest; the first one that is ACTIVE, within the 50 window and within 1.2 radii of
  the input is judged, and the function returns.
\<close>

definition hitValueFor :: "hit_windows \<Rightarrow> real \<Rightarrow> int" where
  "hitValueFor windows absOffset =
     (if absOffset \<le> window300 windows then 300
      else if absOffset \<le> window100 windows then 100
      else 50)"

fun tryObjects :: "game \<Rightarrow> real \<times> real \<Rightarrow> real \<Rightarrow> nat list \<Rightarrow> game" where
  "tryObjects g osuPos currentTime [] = g"
| "tryObjects g osuPos currentTime (k # ks) =
     (let windows = getHitWindows (overallDifficulty (beatmapDifficulty g));
          circleRadius = getCircleRadius (circleSize (beatmapDifficulty g));
          obj = hitObjects g ! k
      in if state obj \<noteq> ACTIVE then tryObjects g osuPos currentTime ks
         else
           (let hitOffset = currentTime - objTime obj in
            if \<bar>hitOffset\<bar> > window50 windows then tryObjects g osuPos currentTime ks
            else
              (let distance = hypot (fst osuPos - objX obj) (snd osuPos - objY obj) in
               if distance \<le> circleRadius * 1.2 then
                 (let absOffset = \<bar>hitOffset\<bar>;
                      hitValue = hitValueFor windows absOffset
                  in if objType obj = Slider then startSlider g k hitValue
                     else
                       processHit
                         (setObject g k
                            (obj\<lparr>state := (if hitValue = 300 then HIT_300
                                            else if hitValue = 100 then HIT_100
                                            else HIT_50)\<rparr>))
                         k hitValue)
               else tryObjects g osuPos currentTime ks)))"

definition processHitAtPosition :: "game \<Rightarrow> real \<times> real \<Rightarrow> real \<Rightarrow> game" where
  "processHitAtPosition g osuPos currentTime =
     tryObjects g osuPos currentTime (activeObjects g)"

text \<open>
  \<open>updateSliders\<close>. The loop runs from the last active object down to the first;
  \<open>sliderLoop i\<close> is the loop with the indices below \<open>i\<close> still to visit. The
  position of the ball, \<open>getSliderBallPosition\<close>, is the argument \<open>ballPosition\<close>:
  in the program it interpolates between the curve samples, here it is any function, so
  what is proved of \<open>updateSliders\<close> holds wherever the ball is. (For a slider
  with \<open>slideDuration\<close> 0 and at least two samples the program's function raises
  a TypeError, and the frame ends after the scoring operations done so far.)
\<close>

definition sliderBody ::
  "(hit_object \<Rightarrow> real \<Rightarrow> real \<times> real) \<Rightarrow> real \<Rightarrow> real \<Rightarrow> real \<times> real \<Rightarrow> bool
     \<Rightarrow> game \<Rightarrow> nat \<Rightarrow> game" where
  "sliderBody ballPosition currentTime followRadius osuPos holding g k =
     (let obj = hitObjects g ! k in
      if state obj \<noteq> SLIDING then g
      else
        (let elapsed = currentTime - objTime obj;
             clampedElapsed = max 0 (min elapsed (totalDuration obj));
             ballPos = ballPosition obj clampedElapsed;
             g1 = (if tracking obj \<and> \<not> trackingBroken obj then
                     (let distanceToBall =
                            hypot (fst osuPos - fst ballPos) (snd osuPos - snd ballPos)
                      in if \<not> holding \<or> distanceToBall > followRadius
                         then breakTracking g k else g)
                   else g);
             g2 = awardTicks g1 k clampedElapsed
         in if elapsed \<ge> totalDuration obj then completeSlider g2 k else g2))"

fun sliderLoop ::
  "(hit_object \<Rightarrow> real \<Rightarrow> real \<times> real) \<Rightarrow> real \<Rightarrow> real \<Rightarrow> real \<times> real \<Rightarrow> bool
     \<Rightarrow> nat \<Rightarrow> game \<Rightarrow> game" where
  "sliderLoop ballPosition currentTime followRadius osuPos holding 0 g = g"
| "sliderLoop ballPosition currentTime followRadius osuPos holding (Suc i) g =
     sliderLoop ballPosition currentTime followRadius osuPos holding i
       (sliderBody ballPosition currentTime followRadius osuPos holding g (activeObjects g ! i))"

definition updateSliders ::
  "(hit_object \<Rightarrow> real \<Rightarrow> real \<times> real) \<Rightarrow> game \<Rightarrow> real \<Rightarrow> real \<Rightarrow> real \<times> real \<Rightarrow> bool
     \<Rightarrow> game" where
  "updateSliders ballPosition g currentTime circleRadius osuPos holding =
     (let followRadius = circleRadius * 2.4
      in sliderLoop ballPosition currentTime followRadius osuPos holding
           (length (activeObjects g)) g)"

text \<open>\<open>update\<close>: activation, the miss check, the sliders, the failure check.\<close>

function activateObjects :: "game \<Rightarrow> real \<Rightarrow> real \<Rightarrow> game" where
  "activateObjects g currentTime approachTime =
     (if nextObjectIndex g < length (hitObjects g) then
        (if state (hitObjects g ! nextObjectIndex g) \<noteq> PENDING then
           activateObjects (g\<lparr>nextObjectIndex := nextObjectIndex g + 1\<rparr>)
             currentTime approachTime
         else if objTime (hitObjects g ! nextObjectIndex g) - currentTime \<le> approachTime then
           activateObjects
             ((setObject g (nextObjectIndex g)
                 ((hitObjects g ! nextObjectIndex g)\<lparr>state := ACTIVE\<rparr>))
                \<lparr>activeObjects := activeObjects g @ [nextObjectIndex g],
                 nextObjectIndex := nextObjectIndex g + 1\<rparr>)
             currentTime approachTime
         else g)
      else g)"
  by pat_completeness auto
termination
  by (relation "measure (\<lambda>(g, t, a). length (hitObjects g) - nextObjectIndex g)")
     (auto simp: setObject_def)

declare activateObjects.simps [simp del]

definition missBody :: "real \<Rightarrow> hit_windows \<Rightarrow> game \<Rightarrow> nat \<Rightarrow> game" where
  "missBody currentTime hitWindows g k =
     (let obj = hitObjects g ! k in
      if state obj = ACTIVE then
        (if objType obj = Slider then
           (if currentTime > objTime obj + window50 hitWindows then processSliderMiss g k
            else g)
         else
           (if currentTime > objTime obj + window50 hitWindows then processMiss g k
            else g))
      else g)"

fun missLoop :: "real \<Rightarrow> hit_windows \<Rightarrow> nat \<Rightarrow> game \<Rightarrow> game" where
  "missLoop currentTime hitWindows 0 g = g"
| "missLoop currentTime hitWindows (Suc i) g =
     missLoop currentTime hitWindows i (missBody currentTime hitWindows g (activeObjects g ! i))"

definition update ::
  "(hit_object \<Rightarrow> real \<Rightarrow> real \<times> real) \<Rightarrow> game \<Rightarrow> real \<Rightarrow> real \<times> real \<Rightarrow> bool \<Rightarrow> game" where
  "update ballPosition g currentTime osuPos holding =
     (let approachTime = getApproachTime (approachRate (beatmapDifficulty g));
          hitWindows = getHitWindows (overallDifficulty (beatmapDifficulty g));
          circleRadius = getCircleRadius (circleSize (beatmapDifficulty g));
          g1 = activateObjects g currentTime approachTime;
          g2 = missLoop currentTime hitWindows (length (activeObjects g1)) g1;
          g3 = updateSliders ballPosition g2 currentTime circleRadius osuPos holding
      in if health (stats g3) \<le> 0 \<and> \<not> failed (stats g3)
         then g3\<lparr>stats := (stats g3)\<lparr>failed := True\<rparr>\<rparr>
         else g3)"


text \<open>
  \<open>getSliderDuration\<close> divides by \<open>sliderMultiplier * 100\<close>. The multiplier of a
  parsed chart is never 0 (\<open>parseDifficulty\<close> replaces 0 by 1.4).
\<close>

definition getSliderDuration :: "real \<Rightarrow> real \<Rightarrow> real \<Rightarrow> failure + real" where
  "getSliderDuration len beatLength multiplier =
     (if multiplier = 0 then Inl NotFinite
      else Inr ((len / (multiplier * 100)) * beatLength))"

text \<open>
  The function that \<open>loadBeatmap\<close> maps over the parsed objects. A circle has no
  slider keys; here they hold the values below, which nothing reads. The tick count per
  slide is the ceiling of the exact quotient; \<open>Math.ceil\<close> of the rounded quotient
  can be one more where \<open>sliderMultiplier * 100\<close> rounds down (multiplier 2.3 and
  length 230 give 1 tick per slide in the program and 0 here). The sliders evaluated
  below have quotients that are exact in doubles.
\<close>

definition loadObject :: "difficulty \<Rightarrow> timing_point list \<Rightarrow> parsed_object \<Rightarrow> failure + hit_object" where
  "loadObject d timingPoints obj =
     (let baseObj =
            \<lparr>objX = pX obj, objY = pY obj, objTime = pTime obj, objType = pType obj,
             state = PENDING, slides = pSlides obj, slideDuration = 0, totalDuration = 0,
             tracking = False, trackingBroken = False, startHitValue = 0, ticksHit = 0,
             ticksPerSlide = 0, totalTicks = 0, tickSpacing = 0, endHit = False,
             curvePoints = []\<rparr>
      in if pType obj = Slider then
           (let beatLength = getBeatLengthAtTime (Some timingPoints) (pTime obj);
                multiplier = sliderMultiplier d
            in case generateCurve (curveType obj) (pX obj) (pY obj) (controlPoints obj)
                      (pLength obj) 100 of
                 Inl e \<Rightarrow> Inl e
               | Inr curve \<Rightarrow>
                   (case getSliderDuration (pLength obj) beatLength multiplier of
                      Inl e \<Rightarrow> Inl e
                    | Inr duration \<Rightarrow>
                        (let tickRate = (if sliderTickRate d = 0 then 1 else sliderTickRate d);
                             beatsPerSlide = pLength obj / (multiplier * 100);
                             perSlide = max 0 (\<lceil>beatsPerSlide * tickRate\<rceil> - 1)
                         in Inr (baseObj
                              \<lparr>curvePoints := curve,
                               slideDuration := duration,
                               totalDuration := duration * real_of_int (pSlides obj),
                               tracking := False, trackingBroken := False, ticksHit := 0,
                               ticksPerSlide := perSlide,
                               totalTicks := perSlide * pSlides obj,
                               tickSpacing :=
                                 (if perSlide > 0 then duration / real_of_int (perSlide + 1)
                                  else 0),
                               endHit := False\<rparr>))))
         else Inr baseObj)"

fun loadObjects :: "difficulty \<Rightarrow> timing_point list \<Rightarrow> parsed_object list \<Rightarrow> failure + hit_object list" where
  "loadObjects d timingPoints [] = Inr []"
| "loadObjects d timingPoints (obj # objs) =
     (case loadObject d timingPoints obj of
        Inl e \<Rightarrow> Inl e
      | Inr h \<Rightarrow>
          (case loadObjects d timingPoints objs of
             Inl e \<Rightarrow> Inl e
           | Inr hs \<Rightarrow> Inr (h # hs)))"

text \<open>
  \<open>loadBeatmap\<close>, from the parsed chart on: the objects are prepared and sorted by
  time (the sort is stable), nothing is active, and the statistics are the empty ones
  that \<open>startCountdown\<close> sets before play.
\<close>

definition loadBeatmap :: "difficulty \<Rightarrow> timing_point list \<Rightarrow> parsed_object list \<Rightarrow> failure + game" where
  "loadBeatmap d timingPoints objs =
     (case loadObjects d timingPoints objs of
        Inl e \<Rightarrow> Inl e
      | Inr hs \<Rightarrow>
          Inr \<lparr>stats = createEmptyStats, beatmapDifficulty = d,
               hitObjects = sort_key objTime hs, activeObjects = [], nextObjectIndex = 0\<rparr>)"

text \<open>
  An active object qualifies for an input when \<open>processHitAtPosition\<close> does not skip
  it: it is ACTIVE, the input time is within the 50 window of its time, and the input
  position is within 1.2 circle radii of it.
\<close>

definition qualifies :: "game \<Rightarrow> real \<times> real \<Rightarrow> real \<Rightarrow> nat \<Rightarrow> bool" where
  "qualifies g osuPos currentTime k =
     (let obj = hitObjects g ! k in
      state obj = ACTIVE
      \<and> \<bar>currentTime - objTime obj\<bar>
           \<le> window50 (getHitWindows (overallDifficulty (beatmapDifficulty g)))
      \<and> hypot (fst osuPos - objX obj) (snd osuPos - objY obj)
           \<le> getCircleRadius (circleSize (beatmapDifficulty g)) * 1.2)"

text \<open>What \<open>processHitAtPosition\<close> does with the object it has matched.\<close>

definition judge :: "game \<Rightarrow> nat \<Rightarrow> real \<Rightarrow> game" where
  "judge g k currentTime =
     (let obj = hitObjects g ! k;
          hitValue = hitValueFor (getHitWindows (overallDifficulty (beatmapDifficulty g)))
                       \<bar>currentTime - objTime obj\<bar>
      in if objType obj = Slider then startSlider g k hitValue
         else processHit
                (setObject g k
                   (obj\<lparr>state := (if hitValue = 300 then HIT_300
                                   else if hitValue = 100 then HIT_100
                                   else HIT_50)\<rparr>))
                k hitValue)"

text \<open>Sample states used by the closed theorems below.\<close>

definition normalDifficulty :: difficulty where
  "normalDifficulty =
     \<lparr>hpDrainRate = 5, circleSize = 4, overallDifficulty = 5, approachRate = 5,
      sliderMultiplier = 1.4, sliderTickRate = 1\<rparr>"

definition circleAt :: "real \<Rightarrow> real \<Rightarrow> real \<Rightarrow> hit_state \<Rightarrow> hit_object" where
  "circleAt px py t st =
     \<lparr>objX = px, objY = py, objTime = t, objType = Circle, state = st, slides = 0,
      slideDuration = 0, totalDuration = 0, tracking = False, trackingBroken = False,
      startHitValue = 0, ticksHit = 0, ticksPerSlide = 0, totalTicks = 0, tickSpacing = 0,
      endHit = False, curvePoints = []\<rparr>"

definition oneCircleGame :: game where
  "oneCircleGame =
     \<lparr>stats = createEmptyStats, beatmapDifficulty = normalDifficulty,
      hitObjects = [circleAt 256 192 1000 ACTIVE], activeObjects = [0],
      nextObjectIndex = 1\<rparr>"

text \<open>Sample lines: a line of five parts at (256, 192) with a given time and type.\<close>

definition objectLine :: "real \<Rightarrow> int \<Rightarrow> object_fields" where
  "objectLine t ty =
     \<lparr>partsCount = 5, fieldX = 256, fieldY = 192, fieldTime = t, fieldType = ty,
      fieldHitSound = Some 0, fieldCurveType = [], fieldControlPoints = [],
      fieldSlides = None, fieldLength = None\<rparr>"

definition gapLines :: "object_fields list" where
  "gapLines = [objectLine 1000 1, objectLine 2000 128, objectLine 3000 1]"

text \<open>A line for which \<open>parseHitObjects\<close> pushes an object: a circle or a slider.\<close>

definition emitsObject :: "object_fields \<Rightarrow> bool" where
  "emitsObject l = (fieldType l AND 1 \<noteq> 0 \<or> fieldType l AND 2 \<noteq> 0)"

text \<open>
  A slider with one tick per slide as \<open>loadBeatmap\<close> prepares it (length 140,
  slider multiplier 1.4, tick rate 2, beat length 500), after its head was hit:
  \<open>n\<close> slides and \<open>hits\<close> ticks hit so far.
\<close>

definition repeatSlider :: "int \<Rightarrow> int \<Rightarrow> hit_object" where
  "repeatSlider n hits =
     \<lparr>objX = 256, objY = 192, objTime = 1000, objType = Slider, state = SLIDING, slides = n,
      slideDuration = 500, totalDuration = 500 * real_of_int n, tracking = True,
      trackingBroken = False, startHitValue = 300, ticksHit = hits, ticksPerSlide = 1,
      totalTicks = n, tickSpacing = 250, endHit = False, curvePoints = []\<rparr>"

definition oneSliderGame :: "int \<Rightarrow> int \<Rightarrow> game" where
  "oneSliderGame n hits =
     \<lparr>stats = createEmptyStats\<lparr>combo := 1 + hits, maxCombo := 1 + hits\<rparr>,
      beatmapDifficulty = normalDifficulty,
      hitObjects = [repeatSlider n hits], activeObjects = [0], nextObjectIndex = 1\<rparr>"

text \<open>
  A one-slide slider whose head was hit and whose tracking is then lost before its only
  tick, as \<open>updateSliders\<close> leaves it.
\<close>

definition droppedGame :: game where
  "droppedGame = breakTracking (oneSliderGame 1 0) 0"

text \<open>
  A session is a sequence of operations on the session state: the scoring operations
  (with any arguments), an input event (\<open>processHitAtPosition\<close>) and a frame
  (\<open>update\<close>), which are made of scoring operations. A frame that an exception
  ends early is the sequence of the scoring operations it has done.
\<close>

datatype session_op =
    SliderStart nat int
  | CircleHit nat int
  | TickAward nat real
  | TrackingLost nat
  | CircleMiss nat
  | SliderMiss nat
  | SliderCompletion nat
  | Input "real \<times> real" real
  | Frame "hit_object \<Rightarrow> real \<Rightarrow> real \<times> real" real "real \<times> real" bool

fun applyOp :: "game \<Rightarrow> session_op \<Rightarrow> game" where
  "applyOp g (SliderStart k v) = startSlider g k v"
| "applyOp g (CircleHit k v) = processHit g k v"
| "applyOp g (TickAward k e) = awardTicks g k e"
| "applyOp g (TrackingLost k) = breakTracking g k"
| "applyOp g (CircleMiss k) = processMiss g k"
| "applyOp g (SliderMiss k) = processSliderMiss g k"
| "applyOp g (SliderCompletion k) = completeSlider g k"
| "applyOp g (Input osuPos currentTime) = processHitAtPosition g osuPos currentTime"
| "applyOp g (Frame ballPosition currentTime osuPos holding) =
     update ballPosition g currentTime osuPos holding"

definition session :: "game \<Rightarrow> session_op list \<Rightarrow> game" where
  "session g ops = foldl applyOp g ops"

text \<open>
  The invariant, and the relation between the states before and after a step that
  keeps it and does not lower the maximum combo.
\<close>

definition comboInv :: "game \<Rightarrow> bool" where
  "comboInv g = (0 \<le> combo (stats g) \<and> combo (stats g) \<le> maxCombo (stats g))"

definition keeps :: "game \<Rightarrow> game \<Rightarrow> bool" where
  "keeps g g' = (comboInv g \<longrightarrow> comboInv g' \<and> maxCombo (stats g) \<le> maxCombo (stats g'))"

text \<open>
  A play of a slider with two slides and one tick per slide: the chart (tick rate 2, a
  linear slider of length 140 from (256, 192), no timing points), and the session: a
  frame at time 0, an input on the head at time 1000, a frame at time 2000 with the
  input held on the ball. At time 2000 the second slide has ended and the ball is back
  at the head, (256, 192), which is what \<open>onBall\<close> returns.
\<close>

definition tickDifficulty :: difficulty where
  "tickDifficulty = normalDifficulty\<lparr>sliderTickRate := 2\<rparr>"

definition repeatObject :: parsed_object where
  "repeatObject =
     \<lparr>pX = 256, pY = 192, pTime = 1000, pType = Slider, hitSound = 0, isNewCombo = False,
      comboNumber = 1, comboColorIndex = 0, curveType = ''L'', controlPoints = [(396, 192)],
      pSlides = 2, pLength = 140\<rparr>"

definition onBall :: "hit_object \<Rightarrow> real \<Rightarrow> real \<times> real" where
  "onBall obj elapsed = (256, 192)"

definition repeatPlay :: "session_op list" where
  "repeatPlay = [Frame onBall 0 (256, 192) True, Input (256, 192) 1000,
                 Frame onBall 2000 (256, 192) True]"

definition preparedSlider :: "sample list \<Rightarrow> hit_object" where
  "preparedSlider curve =
     \<lparr>objX = 256, objY = 192, objTime = 1000, objType = Slider, state = PENDING,
      slides = 2, slideDuration = 500, totalDuration = 1000, tracking = False,
      trackingBroken = False, startHitValue = 0, ticksHit = 0, ticksPerSlide = 1,
      totalTicks = 2, tickSpacing = 250, endHit = False, curvePoints = curve\<rparr>"

definition loadedGame :: "hit_object \<Rightarrow> game_stats \<Rightarrow> nat list \<Rightarrow> nat \<Rightarrow> game" where
  "loadedGame h s act next =
     \<lparr>stats = s, beatmapDifficulty = tickDifficulty, hitObjects = [h],
      activeObjects = act, nextObjectIndex = next\<rparr>"

definition headHit :: "sample list \<Rightarrow> hit_object" where
  "headHit c = (preparedSlider c)\<lparr>state := SLIDING, tracking := True, startHitValue := 300\<rparr>"

definition afterHead :: game_stats where
  "afterHead = createEmptyStats\<lparr>score := 100, combo := 1, maxCombo := 1\<rparr>"

definition afterSlider :: game_stats where
  "afterSlider = createEmptyStats\<lparr>score := 150, combo := 3, maxCombo := 3, hit100 := 1\<rparr>"

section \<open>Grade at full accuracy\<close>

text \<open>
  C7 (counterexample). With no object judged the accuracy is 100 by definition, yet
  the grade computed is D, not S: \<open>calculateGrade\<close> returns D before it looks at
  the accuracy.
\<close>

theorem C7_counterexample:
  "calculateAccuracy createEmptyStats = 100 \<and> calculateGrade createEmptyStats \<noteq> ''S''"
  by (simp add: calculateAccuracy_def calculateGrade_def createEmptyStats_def)

text \<open>
  C7 (amended). Whenever at least one object was judged and the accuracy is 100, the
  grade is S; when no object was judged the accuracy is 100 and the grade is D.
\<close>

theorem C7_grade_at_full_accuracy:
  "(hit300 s + hit100 s + hit50 s + misses s \<noteq> 0 \<and> calculateAccuracy s = 100
      \<longrightarrow> calculateGrade s = ''S'')
   \<and> (hit300 s + hit100 s + hit50 s + misses s = 0
      \<longrightarrow> calculateAccuracy s = 100 \<and> calculateGrade s = ''D'')"
proof -
  have judged: "calculateGrade s = ''S''"
    if "hit300 s + hit100 s + hit50 s + misses s \<noteq> 0" and "calculateAccuracy s = 100"
    using that by (simp add: calculateGrade_def Let_def)
  have unjudged: "calculateAccuracy s = 100 \<and> calculateGrade s = ''D''"
    if "hit300 s + hit100 s + hit50 s + misses s = 0"
    using that by (simp add: calculateAccuracy_def calculateGrade_def)
  from judged unjudged show ?thesis by blast
qed

theorem C7_grade_at_full_accuracy_witness:
  "calculateAccuracy (createEmptyStats\<lparr>hit300 := 7\<rparr>) = 100
   \<and> calculateGrade (createEmptyStats\<lparr>hit300 := 7\<rparr>) = ''S''
   \<and> calculateGrade createEmptyStats = ''D''"
  using C7_grade_at_full_accuracy [of "createEmptyStats\<lparr>hit300 := 7\<rparr>"]
    C7_grade_at_full_accuracy [of createEmptyStats]
  by (simp add: calculateAccuracy_def createEmptyStats_def)

section \<open>Tempo resolution: what the scan applies\<close>

lemma scan_is_fold_prefix:
  "scanTimingPoints tps time st = foldl applyPoint st (takeWhile (\<lambda>tp. offset tp \<le> time) tps)"
proof (induction tps arbitrary: st)
  case Nil
  show ?case by simp
next
  case (Cons tp tps)
  obtain b m where st: "st = (b, m)" by (cases st)
  show ?case
    by (simp add: st Cons.IH not_le [symmetric])
qed

lemma sorted_prefix_is_filter:
  "sorted (map offset tps) \<Longrightarrow>
     takeWhile (\<lambda>tp. offset tp \<le> time) tps = filter (\<lambda>tp. offset tp \<le> time) tps"
proof (induction tps)
  case Nil
  show ?case by simp
next
  case (Cons tp tps)
  show ?case
  proof (cases "offset tp \<le> time")
    case True
    with Cons show ?thesis by simp
  next
    case False
    with Cons.prems have "\<forall>q \<in> set tps. \<not> offset q \<le> time"
      by auto
    then have "filter (\<lambda>tp. offset tp \<le> time) tps = []"
      by (simp add: filter_empty_conv)
    with False show ?thesis by simp
  qed
qed

text \<open>
  C2 (counterexample). The list is taken in file order and is not sorted: when a point
  at offset 1000 stands before a point at offset 0, a query at time 500 stops at the
  first point and never applies the second one, although its offset is at most 500.
\<close>

theorem C2_counterexample:
  "getBeatLengthAtTime
     (Some [\<lparr>offset = 1000, msPerBeat = 400, inherited = False\<rparr>,
            \<lparr>offset = 0, msPerBeat = 300, inherited = False\<rparr>]) 500 = 500
   \<and> beatLengthAt_spec
     [\<lparr>offset = 1000, msPerBeat = 400, inherited = False\<rparr>,
      \<lparr>offset = 0, msPerBeat = 300, inherited = False\<rparr>] 500 = 300"
  by (simp add: getBeatLengthAtTime_def beatLengthAt_spec_def applyAll_def)

text \<open>
  C2 (amended). The scan applies, in file order, every point that stands before the
  first point whose offset is greater than the query time, and nothing after it; it
  returns base / multiplier, with base 500 and multiplier 1 to start with. When the
  offsets are in ascending order these are all the points with offset at most the
  query time. With no point at or before the query time the result is 500, and the
  points (0, 500, uninherited), (1000, -50, inherited) give 250 at time 1500.
\<close>

theorem C2_beat_length_prefix:
  "getBeatLengthAtTime (Some tps) time
     = applyAll (takeWhile (\<lambda>tp. offset tp \<le> time) tps)
   \<and> (sorted (map offset tps) \<longrightarrow>
        getBeatLengthAtTime (Some tps) time = beatLengthAt_spec tps time)
   \<and> ((\<forall>tp \<in> set tps. time < offset tp) \<longrightarrow> getBeatLengthAtTime (Some tps) time = 500)
   \<and> getBeatLengthAtTime (Some [timingPoint 0 500, timingPoint 1000 (- 50)]) 1500 = 250"
proof -
  have prefix: "getBeatLengthAtTime (Some tps) time
      = applyAll (takeWhile (\<lambda>tp. offset tp \<le> time) tps)"
    by (simp add: getBeatLengthAtTime_def applyAll_def scan_is_fold_prefix)
  have ordered: "getBeatLengthAtTime (Some tps) time = beatLengthAt_spec tps time"
    if "sorted (map offset tps)"
    using that by (simp add: prefix beatLengthAt_spec_def sorted_prefix_is_filter)
  have none: "getBeatLengthAtTime (Some tps) time = 500"
    if "\<forall>tp \<in> set tps. time < offset tp"
  proof -
    have "takeWhile (\<lambda>tp. offset tp \<le> time) tps = []"
      using that by (cases tps) auto
    then show ?thesis by (simp add: prefix applyAll_def)
  qed
  have example:
    "getBeatLengthAtTime (Some [timingPoint 0 500, timingPoint 1000 (- 50)]) 1500 = 250"
    by (simp add: getBeatLengthAtTime_def timingPoint_def velocityOf_def)
  from prefix ordered none example show ?thesis by blast
qed

theorem C2_beat_length_prefix_witness:
  "sorted (map offset [timingPoint 0 400, timingPoint 100 (- 200), timingPoint 900 300])
   \<and> getBeatLengthAtTime
        (Some [timingPoint 0 400, timingPoint 100 (- 200), timingPoint 900 300]) 500 = 800
   \<and> beatLengthAt_spec
        [timingPoint 0 400, timingPoint 100 (- 200), timingPoint 900 300] 500 = 800
   \<and> getBeatLengthAtTime (Some [timingPoint 900 300]) 500 = 500"
  using C2_beat_length_prefix
          [of "[timingPoint 0 400, timingPoint 100 (- 200), timingPoint 900 300]" 500]
        C2_beat_length_prefix [of "[timingPoint 900 300]" 500]
  by (simp add: timingPoint_def applyAll_def velocityOf_def)

section \<open>Hit windows and tiers\<close>

lemma tryObjects_first:
  "\<forall>j \<in> set pre. \<not> qualifies g pos t j \<Longrightarrow> qualifies g pos t k \<Longrightarrow>
     tryObjects g pos t (pre @ k # post) = judge g k t"
proof (induction pre)
  case Nil
  then show ?case by (simp add: qualifies_def judge_def Let_def)
next
  case (Cons j pre)
  then have nq: "\<not> qualifies g pos t j" by simp
  from Cons have IH: "tryObjects g pos t (pre @ k # post) = judge g k t" by simp
  show ?case using nq IH
    by (auto simp add: qualifies_def Let_def)
qed

lemma judged_circle:
  "k < length (hitObjects g) \<Longrightarrow> objType (hitObjects g ! k) = Circle \<Longrightarrow>
   state (hitObjects (judge g k t) ! k) =
     (let d = \<bar>t - objTime (hitObjects g ! k)\<bar>; od = overallDifficulty (beatmapDifficulty g) in
      if d \<le> 80 - 6 * od then HIT_300 else if d \<le> 140 - 8 * od then HIT_100 else HIT_50)"
  by (simp add: judge_def Let_def processHit_def removeActiveObject_def setObject_def
        hitValueFor_def getHitWindows_def)

lemma judged_slider:
  "k < length (hitObjects g) \<Longrightarrow> objType (hitObjects g ! k) = Slider \<Longrightarrow>
   startHitValue (hitObjects (judge g k t) ! k) =
     (let d = \<bar>t - objTime (hitObjects g ! k)\<bar>; od = overallDifficulty (beatmapDifficulty g) in
      if d \<le> 80 - 6 * od then 300 else if d \<le> 140 - 8 * od then 100 else 50)"
  by (simp add: judge_def Let_def startSlider_def setObject_def hitValueFor_def
        getHitWindows_def)

text \<open>
  C6. The windows are 80 - 6 od, 140 - 8 od and 200 - 10 od; with od = 5 they are 50,
  100 and 150, an offset of exactly 50 is a 300 and an offset of 50.01 is a 100. The
  first active object that qualifies for an input (all older active objects not
  qualifying) is judged by its absolute offset d with inclusive bounds: a circle goes
  to HIT_300 when d is at most the 300 window, to HIT_100 when d is above it and at
  most the 100 window, to HIT_50 otherwise; a slider is started with the value chosen
  the same way.
\<close>

theorem C6_hit_windows_and_tiers:
  "getHitWindows od
     = \<lparr>window300 = 80 - 6 * od, window100 = 140 - 8 * od, window50 = 200 - 10 * od\<rparr>
   \<and> getHitWindows 5 = \<lparr>window300 = 50, window100 = 100, window50 = 150\<rparr>
   \<and> hitValueFor (getHitWindows 5) 50 = 300
   \<and> hitValueFor (getHitWindows 5) 50.01 = 100
   \<and> (activeObjects g = pre @ k # post \<and> (\<forall>j \<in> set pre. \<not> qualifies g pos t j)
        \<and> qualifies g pos t k \<and> k < length (hitObjects g) \<longrightarrow>
       (let d = \<bar>t - objTime (hitObjects g ! k)\<bar>;
            god = overallDifficulty (beatmapDifficulty g);
            g' = processHitAtPosition g pos t
        in d \<le> 200 - 10 * god
           \<and> (objType (hitObjects g ! k) = Circle \<longrightarrow>
                state (hitObjects g' ! k)
                  = (if d \<le> 80 - 6 * god then HIT_300
                     else if d \<le> 140 - 8 * god then HIT_100 else HIT_50))
           \<and> (objType (hitObjects g ! k) = Slider \<longrightarrow>
                startHitValue (hitObjects g' ! k)
                  = (if d \<le> 80 - 6 * god then 300
                     else if d \<le> 140 - 8 * god then 100 else 50))))"
proof -
  have windows: "getHitWindows od
     = \<lparr>window300 = 80 - 6 * od, window100 = 140 - 8 * od, window50 = 200 - 10 * od\<rparr>"
    by (simp add: getHitWindows_def)
  have five: "getHitWindows 5 = \<lparr>window300 = 50, window100 = 100, window50 = 150\<rparr>"
    by (simp add: getHitWindows_def)
  have at50: "hitValueFor (getHitWindows 5) 50 = 300"
    by (simp add: getHitWindows_def hitValueFor_def)
  have above50: "hitValueFor (getHitWindows 5) 50.01 = 100"
    by (simp add: getHitWindows_def hitValueFor_def)
  have judged: "(let d = \<bar>t - objTime (hitObjects g ! k)\<bar>;
            god = overallDifficulty (beatmapDifficulty g);
            g' = processHitAtPosition g pos t
        in d \<le> 200 - 10 * god
           \<and> (objType (hitObjects g ! k) = Circle \<longrightarrow>
                state (hitObjects g' ! k)
                  = (if d \<le> 80 - 6 * god then HIT_300
                     else if d \<le> 140 - 8 * god then HIT_100 else HIT_50))
           \<and> (objType (hitObjects g ! k) = Slider \<longrightarrow>
                startHitValue (hitObjects g' ! k)
                  = (if d \<le> 80 - 6 * god then 300
                     else if d \<le> 140 - 8 * god then 100 else 50)))"
    if act: "activeObjects g = pre @ k # post"
      and older: "\<forall>j \<in> set pre. \<not> qualifies g pos t j"
      and q: "qualifies g pos t k"
      and k: "k < length (hitObjects g)"
  proof -
    have run: "processHitAtPosition g pos t = judge g k t"
      using tryObjects_first [OF older q] by (simp add: processHitAtPosition_def act)
    have inwin: "\<bar>t - objTime (hitObjects g ! k)\<bar>
                   \<le> 200 - 10 * overallDifficulty (beatmapDifficulty g)"
      using q by (simp add: qualifies_def Let_def getHitWindows_def)
    show ?thesis
      using inwin judged_circle [OF k, of t] judged_slider [OF k, of t]
      by (simp add: run Let_def)
  qed
  from windows five at50 above50 judged show ?thesis by blast
qed

theorem C6_hit_windows_and_tiers_witness:
  "state (hitObjects (processHitAtPosition oneCircleGame (256, 192) 1050) ! 0) = HIT_300
   \<and> state (hitObjects (processHitAtPosition oneCircleGame (256, 192) 1050.01) ! 0) = HIT_100
   \<and> state (hitObjects (processHitAtPosition oneCircleGame (256, 192) 1120) ! 0) = HIT_50"
  using C6_hit_windows_and_tiers [of 5 oneCircleGame "[]" 0 "[]" "(256, 192)" 1050]
        C6_hit_windows_and_tiers [of 5 oneCircleGame "[]" 0 "[]" "(256, 192)" "1050.01"]
        C6_hit_windows_and_tiers [of 5 oneCircleGame "[]" 0 "[]" "(256, 192)" 1120]
  by (simp add: oneCircleGame_def circleAt_def normalDifficulty_def qualifies_def
        getHitWindows_def getCircleRadius_def hypot_def Let_def)

section \<open>Curve geometry: sample counts and length\<close>

lemma hypot_nonneg: "0 \<le> hypot a b"
  by (simp add: hypot_def)

lemma hypot_zero_right: "hypot a 0 = \<bar>a\<bar>"
  by (simp add: hypot_def)

lemma hypot_scale: "hypot (a * t) (b * t) = \<bar>t\<bar> * hypot a b"
proof -
  have "a * t * (a * t) + b * t * (b * t) = (t * t) * (a * a + b * b)"
    by (simp add: algebra_simps)
  then show ?thesis
    by (simp add: hypot_def real_sqrt_mult)
qed

lemma curveLength_nonneg: "curveLength ps = Some l \<Longrightarrow> 0 \<le> l"
proof (induction ps arbitrary: l rule: curveLength.induct)
  case (1 a b rest)
  then show ?case
    by (cases a; cases b) (auto split: option.splits simp: hypot_nonneg)
qed simp_all

lemma segmentLength_lerp:
  "segmentLength (Some p) (Some (lerpPoint p q t))
     = Some (\<bar>t\<bar> * hypot (fst q - fst p) (snd q - snd p))"
  using hypot_scale [of "fst q - fst p" t "snd q - snd p"]
  by (simp add: lerpPoint_def)

lemma trimLoop_length:
  "curveLength (prev # rest) = Some L \<Longrightarrow> c < target \<Longrightarrow>
     curveLength (prev # trimLoop prev rest (Some c) target) = Some (min L (target - c))"
proof (induction rest arbitrary: prev c L)
  case Nil
  then show ?case by simp
next
  case (Cons cur rest)
  from Cons.prems(1) obtain p q r where
    prev: "prev = Some p" and cur: "cur = Some q"
    and r: "curveLength (cur # rest) = Some r"
    and L: "L = hypot (fst q - fst p) (snd q - snd p) + r"
    by (cases prev; cases cur) (auto split: option.splits)
  define seg where "seg = hypot (fst q - fst p) (snd q - snd p)"
  have seg0: "0 \<le> seg" by (simp add: seg_def hypot_nonneg)
  have r0: "0 \<le> r" using r by (rule curveLength_nonneg)
  have segl: "segmentLength (Some p) (Some q) = Some seg" by (simp add: seg_def)
  show ?case
  proof (cases "c + seg \<ge> target")
    case True
    with Cons.prems(2) have segpos: "0 < seg" by simp
    have "\<bar>(target - c) / seg\<bar> * seg = target - c"
      using segpos Cons.prems(2) by simp
    then have len: "segmentLength (Some p) (Some (lerpPoint p q ((target - c) / seg)))
                      = Some (target - c)"
      by (simp only: segmentLength_lerp seg_def)
    have out: "trimLoop (Some p) (Some q # rest) (Some c) target
                 = [Some (lerpPoint p q ((target - c) / seg))]"
      using True segpos by (simp add: segl Let_def del: segmentLength.simps)
    have "min L (target - c) = target - c"
      using True r0 L by (simp add: seg_def)
    then show ?thesis
      unfolding prev cur using len by (simp add: out del: segmentLength.simps trimLoop.simps)
  next
    case False
    then have lt: "c + seg < target" by simp
    have IH: "curveLength (cur # trimLoop cur rest (Some (c + seg)) target)
                = Some (min r (target - (c + seg)))"
      using Cons.IH [OF r lt] .
    have out: "trimLoop (Some p) (Some q # rest) (Some c) target
                 = Some q # trimLoop (Some q) rest (Some (c + seg)) target"
      using False by (simp add: segl del: segmentLength.simps)
    have "seg + min r (target - (c + seg)) = min L (target - c)"
      using L by (simp add: seg_def min_def)
    then show ?thesis
      using IH unfolding prev cur by (simp add: out segl del: segmentLength.simps trimLoop.simps)
  qed
qed

lemma trimCurveToLength_length:
  assumes "curveLength raw = Some L" and "0 < target"
  shows "curveLength (trimCurveToLength raw target) = Some (min L target)"
proof (cases "length raw < 2")
  case True
  then have "curveLength raw = Some 0"
    by (cases raw rule: curveLength.cases) auto
  with assms True show ?thesis by (simp add: trimCurveToLength_def)
next
  case False
  then obtain a rest where raw: "raw = a # rest" by (cases raw) auto
  show ?thesis
    using trimLoop_length [of a rest L 0 target] assms False
    by (simp add: trimCurveToLength_def raw)
qed


lemma trimLoop_nonempty: "rest \<noteq> [] \<Longrightarrow> trimLoop prev rest c target \<noteq> []"
  by (cases rest) (auto split: option.splits simp: Let_def)

lemma trimCurveToLength_two:
  "2 \<le> length pts \<Longrightarrow> 2 \<le> length (trimCurveToLength pts target)"
proof -
  assume len: "2 \<le> length pts"
  then have "tl pts \<noteq> []" by (cases pts) auto
  then have "trimLoop (hd pts) (tl pts) (Some 0) target \<noteq> []"
    by (rule trimLoop_nonempty)
  then have "1 \<le> length (trimLoop (hd pts) (tl pts) (Some 0) target)"
    by (cases "trimLoop (hd pts) (tl pts) (Some 0) target") auto
  with len show ?thesis by (simp add: trimCurveToLength_def)
qed

lemma two_elements: "2 \<le> length xs \<Longrightarrow> \<exists>a b rest. xs = a # b # rest"
  by (cases xs; cases "tl xs") auto

lemma linearSegments_two:
  assumes "2 \<le> length points" and "0 < pps"
  shows "2 \<le> length (linearSegments points pps)"
proof -
  obtain p1 p2 ps where "points = p1 # p2 # ps"
    using two_elements [OF assms(1)] by blast
  with assms(2) show ?thesis by simp
qed

lemma generateLinearCurve_two:
  assumes "2 \<le> length points" and "0 < resolution"
  shows "2 \<le> length (generateLinearCurve points resolution)"
proof -
  have "0 < real resolution / real (length points - 1)"
    using assms by simp
  then have "0 < \<lceil>real resolution / real (length points - 1)\<rceil>"
    by (simp add: ceiling_less_iff [symmetric] del: of_nat_diff)
  then have "0 < nat \<lceil>real resolution / real (length points - 1)\<rceil>"
    by simp
  with assms(1) show ?thesis
    by (simp add: generateLinearCurve_def linearSegments_two)
qed

lemma generatePerfectCircleCurve_two:
  assumes "2 \<le> length points" and "0 < resolution"
  shows "2 \<le> length (generatePerfectCircleCurve points resolution)"
proof -
  have lin: "2 \<le> length (generateLinearCurve points resolution)"
    using assms by (rule generateLinearCurve_two)
  have arc: "2 \<le> length (arcSamples c r a d resolution)" for c r a d
    using assms(2) by (simp add: arcSamples_def)
  show ?thesis
    unfolding generatePerfectCircleCurve_def Let_def
    using lin arc by (simp split: option.split)
qed

lemma bezierPoint_returns: "points \<noteq> [] \<Longrightarrow> \<exists>p. bezierPoint points t = Some p"
proof (induction points t rule: bezierPoint.induct)
  case (1 points t)
  show ?case
  proof (cases "length points = 1")
    case True
    then show ?thesis by (subst bezierPoint.simps) simp
  next
    case False
    moreover have "length points \<noteq> 0" using "1.prems" by simp
    ultimately have "2 \<le> length points" by linarith
    then have "length (deCasteljau points t) \<noteq> 0" by simp
    then have "deCasteljau points t \<noteq> []" by (simp del: length_deCasteljau)
    with "1.IH" [OF False "1.prems"] False "1.prems" show ?thesis
      by (subst bezierPoint.simps) simp
  qed
qed

lemma bezierLoop_returns:
  "segment \<noteq> [] \<Longrightarrow> \<exists>r. bezierLoop segment resolution t = Inr r"
proof (induction segment resolution t rule: bezierLoop.induct)
  case (1 segment resolution t)
  show ?case
  proof (cases "0 < resolution \<and> t \<le> 1")
    case True
    obtain p where p: "bezierPoint segment t = Some p"
      using bezierPoint_returns [OF "1.prems"] by blast
    obtain r where "bezierLoop segment resolution (t + 1 / real resolution) = Inr r"
      using "1.IH" [OF True p "1.prems"] by blast
    with True p show ?thesis
      by (subst bezierLoop.simps) simp
  next
    case False
    then show ?thesis by (subst bezierLoop.simps) auto
  qed
qed

lemma bezierLoop_two:
  assumes "segment \<noteq> []" and "0 < resolution"
  shows "\<exists>r. bezierLoop segment resolution 0 = Inr r \<and> 2 \<le> length r"
proof -
  let ?h = "1 / real resolution"
  have h: "?h \<le> 1" using assms(2) by simp
  obtain p0 where p0: "bezierPoint segment 0 = Some p0"
    using bezierPoint_returns [OF assms(1)] by blast
  obtain p1 where p1: "bezierPoint segment ?h = Some p1"
    using bezierPoint_returns [OF assms(1)] by blast
  obtain r where r: "bezierLoop segment resolution (?h + ?h) = Inr r"
    using bezierLoop_returns [OF assms(1)] by blast
  have "bezierLoop segment resolution ?h = Inr (Some p1 # r)"
    using assms(2) h p1 r by (subst bezierLoop.simps) simp
  then have "bezierLoop segment resolution 0 = Inr (Some p0 # Some p1 # r)"
    using assms(2) p0 by (subst bezierLoop.simps) simp
  then show ?thesis by simp
qed

lemma segmentSamples_returns:
  "segment \<noteq> [] \<Longrightarrow> \<exists>r. segmentSamples segment resolution = Inr r"
  using bezierPoint_returns [of segment 0] bezierLoop_returns [of segment resolution 0]
  by (auto simp: segmentSamples_def)

lemma bezierSegments_returns: "\<exists>r. bezierSegments segments resolution = Inr r"
proof (induction segments)
  case Nil
  show ?case by simp
next
  case (Cons segment segments)
  then obtain r where r: "bezierSegments segments resolution = Inr r" by blast
  show ?case
  proof (cases "length segment < 2")
    case True
    with r show ?thesis by simp
  next
    case False
    then have "segment \<noteq> []" by auto
    then obtain q where "segmentSamples segment resolution = Inr q"
      using segmentSamples_returns by blast
    with False r show ?thesis by simp
  qed
qed

lemma bezierSegments_two:
  assumes "0 < resolution" and "\<exists>segment \<in> set segments. 2 \<le> length segment"
  shows "\<exists>r. bezierSegments segments resolution = Inr r \<and> 2 \<le> length r"
  using assms(2)
proof (induction segments)
  case Nil
  then show ?case by simp
next
  case (Cons segment segments)
  obtain r where r: "bezierSegments segments resolution = Inr r"
    using bezierSegments_returns by blast
  show ?case
  proof (cases "length segment < 2")
    case True
    with Cons show ?thesis by auto
  next
    case False
    then have ne: "segment \<noteq> []" by auto
    obtain q where q: "bezierLoop segment resolution 0 = Inr q" "2 \<le> length q"
      using bezierLoop_two [OF ne assms(1)] by blast
    with False r assms(1) show ?thesis by (simp add: segmentSamples_def)
  qed
qed

lemma splitLoop_long:
  "\<forall>s \<in> set segments. 2 \<le> length s \<Longrightarrow>
     \<forall>s \<in> set (splitLoop prev rest currentSegment segments). 2 \<le> length s"
proof (induction rest arbitrary: prev currentSegment segments)
  case Nil
  then show ?case by simp
next
  case (Cons cur rest)
  have pushed: "\<forall>s \<in> set (if length currentSegment > 1 then segments @ [currentSegment]
                              else segments). 2 \<le> length s"
    using Cons.prems by simp
  show ?case
    using Cons.IH [OF pushed] Cons.IH [OF Cons.prems]
    by (simp del: split_paired_All)
qed

lemma splitBezierSegments_long:
  assumes "2 \<le> length points"
  shows "\<exists>segment \<in> set (splitBezierSegments points). 2 \<le> length segment"
proof -
  from assms obtain p0 ps where pts: "points = p0 # ps" by (cases points) auto
  have all: "\<forall>s \<in> set (splitLoop p0 ps [p0] []). 2 \<le> length s"
    by (rule splitLoop_long) simp
  show ?thesis
  proof (cases "splitLoop p0 ps [p0] [] = []")
    case True
    with assms show ?thesis by (simp add: pts)
  next
    case False
    then obtain s where "s \<in> set (splitLoop p0 ps [p0] [])"
      by (cases "splitLoop p0 ps [p0] []") auto
    with all False show ?thesis by (auto simp: pts Let_def)
  qed
qed

lemma sampleCurve_returns:
  "\<exists>raw. sampleCurve ctype allPoints resolution = Inr raw"
  using bezierSegments_returns [of "splitBezierSegments allPoints" resolution]
  by (simp add: sampleCurve_def generateBezierCurve_def)

lemma generateBezierCurve_two:
  assumes "2 \<le> length allPoints" and "0 < resolution"
  shows "\<exists>raw. generateBezierCurve allPoints resolution = Inr raw \<and> 2 \<le> length raw"
  using bezierSegments_two [OF assms(2) splitBezierSegments_long [OF assms(1)]] assms(1)
  by (simp add: generateBezierCurve_def)

lemma sampleCurve_two:
  assumes "2 \<le> length allPoints" and "0 < resolution"
  shows "\<exists>raw. sampleCurve ctype allPoints resolution = Inr raw \<and> 2 \<le> length raw"
  using generateLinearCurve_two [OF assms] generatePerfectCircleCurve_two [OF assms]
    generateBezierCurve_two [OF assms]
  by (simp add: sampleCurve_def)

lemma sampleCurve_single:
  "sampleCurve ctype [p] resolution = Inr [Some p]"
  by (simp add: sampleCurve_def generateBezierCurve_def generateLinearCurve_def
        generatePerfectCircleCurve_def)

lemma curveLength_finite: "None \<notin> set ps \<Longrightarrow> \<exists>L. curveLength ps = Some L"
proof (induction ps rule: curveLength.induct)
  case (1 a b rest)
  then obtain p q where "a = Some p" "b = Some q" by (cases a; cases b) auto
  moreover from 1 obtain r where "curveLength (b # rest) = Some r" by auto
  ultimately show ?case by simp
qed simp_all

lemma linearSegments_finite: "0 < pps \<Longrightarrow> None \<notin> set (linearSegments points pps)"
  by (induction points pps rule: linearSegments.induct) auto

lemma generateLinearCurve_finite:
  assumes "0 < resolution"
  shows "None \<notin> set (generateLinearCurve points resolution)"
proof (cases "length points < 2")
  case True
  then show ?thesis by (auto simp: generateLinearCurve_def)
next
  case False
  have "0 < real resolution / real (length points - 1)"
    using assms False by simp
  then have "0 < \<lceil>real resolution / real (length points - 1)\<rceil>"
    by (simp add: ceiling_less_iff [symmetric] del: of_nat_diff)
  then have "0 < nat \<lceil>real resolution / real (length points - 1)\<rceil>"
    by simp
  with False show ?thesis
    by (simp add: generateLinearCurve_def linearSegments_finite)
qed

lemma arcSamples_finite: "0 < resolution \<Longrightarrow> None \<notin> set (arcSamples c r a d resolution)"
  by (auto simp: arcSamples_def Let_def)

lemma generatePerfectCircleCurve_finite:
  assumes "0 < resolution"
  shows "None \<notin> set (generatePerfectCircleCurve points resolution)"
  unfolding generatePerfectCircleCurve_def Let_def
  using generateLinearCurve_finite [OF assms] arcSamples_finite [OF assms]
  by (simp split: option.split)

lemma bezierLoop_finite:
  "bezierLoop segment resolution t = Inr r \<Longrightarrow> None \<notin> set r"
proof (induction segment resolution t arbitrary: r rule: bezierLoop.induct)
  case (1 segment resolution t)
  show ?case
  proof (cases "0 < resolution \<and> t \<le> 1")
    case False
    with "1.prems" show ?thesis
      by (subst (asm) bezierLoop.simps) auto
  next
    case True
    from "1.prems" True obtain p r' where
      p: "bezierPoint segment t = Some p"
      and r': "bezierLoop segment resolution (t + 1 / real resolution) = Inr r'"
      and r: "r = Some p # r'"
      by (subst (asm) bezierLoop.simps) (auto split: option.splits sum.splits)
    from "1.IH" [OF True p r'] r show ?thesis by simp
  qed
qed

lemma segmentSamples_finite:
  "segmentSamples segment resolution = Inr r \<Longrightarrow> None \<notin> set r"
  using bezierLoop_finite [of segment resolution 0 r]
  by (auto simp: segmentSamples_def split: if_splits option.splits)

lemma bezierSegments_finite:
  "bezierSegments segments resolution = Inr r \<Longrightarrow> None \<notin> set r"
proof (induction segments arbitrary: r)
  case Nil
  then show ?case by simp
next
  case (Cons segment segments)
  show ?case
  proof (cases "length segment < 2")
    case True
    with Cons show ?thesis by simp
  next
    case False
    with Cons.prems obtain q r' where
      q: "segmentSamples segment resolution = Inr q"
      and r': "bezierSegments segments resolution = Inr r'"
      and r: "r = q @ r'"
      by (auto split: sum.splits)
    from segmentSamples_finite [OF q] Cons.IH [OF r'] r show ?thesis by simp
  qed
qed

lemma sampleCurve_finite:
  assumes "0 < resolution" and "sampleCurve ctype allPoints resolution = Inr raw"
  shows "None \<notin> set raw"
proof -
  have bez: "None \<notin> set raw" if "generateBezierCurve allPoints resolution = Inr raw"
    using that bezierSegments_finite [of "splitBezierSegments allPoints" resolution raw]
    by (auto simp: generateBezierCurve_def split: if_splits)
  show ?thesis
    using assms(2) generateLinearCurve_finite [OF assms(1), of allPoints]
      generatePerfectCircleCurve_finite [OF assms(1), of allPoints] bez
    by (auto simp: sampleCurve_def split: if_splits)
qed


lemma linear_example_length: "curveLength [Some (0, 0), Some (2, 0), Some (4, 0), Some (6, 0), Some (8, 0)] = Some 8"
  by (simp add: hypot_zero_right)

text \<open>
  The length of the trimmed curve in exact arithmetic: for a positive target it is the
  smaller of the raw length and the target. The rounding of the program's doubles is
  not in this statement; it is in the next subsection.
\<close>

lemma generateCurve_length_exact:
  assumes "0 < resolution" and "0 < targetLength"
  shows "\<exists>raw L out.
           sampleCurve ctype ((startX, startY) # ctrl) resolution = Inr raw
           \<and> curveLength raw = Some L
           \<and> generateCurve ctype startX startY ctrl targetLength resolution = Inr out
           \<and> curveLength out = Some (min L targetLength)"
proof -
  obtain raw where raw: "sampleCurve ctype ((startX, startY) # ctrl) resolution = Inr raw"
    using sampleCurve_returns by blast
  obtain L where L: "curveLength raw = Some L"
    using curveLength_finite [OF sampleCurve_finite [OF assms(1) raw]] by blast
  have out: "curveLength (trimCurveToLength raw targetLength) = Some (min L targetLength)"
    using L assms(2) by (simp add: trimCurveToLength_length)
  have gen: "generateCurve ctype startX startY ctrl targetLength resolution
               = Inr (trimCurveToLength raw targetLength)"
    by (simp add: generateCurve_def raw)
  from raw L out gen show ?thesis by blast
qed

subsection \<open>Rounding to the nearest double\<close>

text \<open>
  \<open>rne\<close> gives a nearest integer, so its error is at most a half.
\<close>

lemma rne_nearest: "\<bar>real_of_int (rne z) - z\<bar> \<le> \<bar>real_of_int n - z\<bar>"
proof -
  define f where "f = \<lfloor>z\<rfloor>"
  have f: "real_of_int f \<le> z" "z < real_of_int f + 1"
    unfolding f_def by linarith+
  have cases: "n \<le> f \<or> f + 1 \<le> n" by linarith
  have lo: "real_of_int n \<le> real_of_int f" if "n \<le> f" using that by simp
  have hi: "real_of_int f + 1 \<le> real_of_int n" if "f + 1 \<le> n"
    using that by (metis of_int_1 of_int_add of_int_le_iff)
  have r: "rne z = f \<or> rne z = f + 1"
    by (simp add: rne_def Let_def f_def)
  have r1: "z - real_of_int f \<le> 1 / 2" if "rne z = f"
    using that by (auto simp: rne_def Let_def f_def split: if_splits)
  have r2: "1 / 2 \<le> z - real_of_int f" if "rne z = f + 1"
    using that by (auto simp: rne_def Let_def f_def split: if_splits)
  show ?thesis
    using cases r
  proof (elim disjE)
    assume "n \<le> f" "rne z = f"
    with lo f show ?thesis by simp
  next
    assume a: "n \<le> f" "rne z = f + 1"
    with lo f r2 show ?thesis by simp
  next
    assume a: "f + 1 \<le> n" "rne z = f"
    with hi f r1 show ?thesis by simp
  next
    assume a: "f + 1 \<le> n" "rne z = f + 1"
    with hi f show ?thesis by simp
  qed
qed


lemma rne_int: "rne (real_of_int n) = n"
  using rne_nearest [of "real_of_int n" n] by simp

lemma quantum_pos: "0 < quantum x"
  by (simp add: quantum_def)








lemma powr_int_nonneg: "0 \<le> k \<Longrightarrow> 2 powr real_of_int k = real_of_int (2 ^ nat k)"
  by (simp add: powr_realpow [symmetric])


lemma roundDouble_zero [simp]: "roundDouble 0 = 0"
  by (simp add: roundDouble_def)



text \<open>
  An integer of magnitude up to \<open>2 ^ 53\<close> times a power of two not below
  \<open>2 ^ -1074\<close> is a double, and so is every rounded number.
\<close>

lemma roundDouble_dyadic_strict:
  assumes m: "\<bar>m\<bar> < 2 ^ 53" and j: "- 1074 \<le> j"
  shows "roundDouble (real_of_int m * 2 powr real_of_int j) = real_of_int m * 2 powr real_of_int j"
proof (cases "m = 0")
  case True
  then show ?thesis by simp
next
  case False
  define y where "y = real_of_int m * 2 powr real_of_int j"
  have ynz: "y \<noteq> 0" using False by (simp add: y_def)
  have "\<bar>y\<bar> = real_of_int \<bar>m\<bar> * 2 powr real_of_int j"
    by (simp add: y_def abs_mult)
  also have "\<dots> < real_of_int (2 ^ 53) * 2 powr real_of_int j"
    using m by (intro mult_strict_right_mono) (simp_all only: of_int_less_iff powr_gt_zero)
  also have "\<dots> = 2 powr (53 + real_of_int j)"
    by (simp add: powr_add powr_realpow [symmetric])
  finally have "\<bar>y\<bar> < 2 powr real_of_int (53 + j)" by simp
  then have "log 2 \<bar>y\<bar> < real_of_int (53 + j)"
    using ynz by (simp add: log_less_iff)
  then have "\<lfloor>log 2 \<bar>y\<bar>\<rfloor> < 53 + j" by linarith
  then have bnd: "binade y \<le> 52 + j"
    using j by (simp add: binade_def)
  define k where "k = 52 + j - binade y"
  have k: "0 \<le> k" using bnd by (simp add: k_def)
  have "2 powr real_of_int j = 2 powr (real_of_int k + real_of_int (binade y - 52))"
    by (simp add: k_def)
  also have "\<dots> = 2 powr real_of_int k * quantum y"
    by (simp only: powr_add quantum_def)
  also have "\<dots> = real_of_int (2 ^ nat k) * quantum y"
    using k by (simp only: powr_int_nonneg)
  finally have yq: "y = real_of_int (m * 2 ^ nat k) * quantum y"
    by (simp add: y_def)
  have "y / quantum y = real_of_int (m * 2 ^ nat k)"
    using quantum_pos [of y] by (subst yq) simp
  then have "rne (y / quantum y) = m * 2 ^ nat k"
    by (simp only: rne_int)
  then have "roundDouble y = real_of_int (m * 2 ^ nat k) * quantum y"
    using ynz by (simp add: roundDouble_def)
  also have "\<dots> = y" using yq by simp
  finally show ?thesis unfolding y_def .
qed

lemma roundDouble_dyadic:
  assumes m: "\<bar>m\<bar> \<le> 2 ^ 53" and j: "- 1074 \<le> j"
  shows "roundDouble (real_of_int m * 2 powr real_of_int j) = real_of_int m * 2 powr real_of_int j"
proof (cases "\<bar>m\<bar> < 2 ^ 53")
  case True
  then show ?thesis using j by (rule roundDouble_dyadic_strict)
next
  case False
  with m have "m = 2 ^ 53 \<or> m = - (2 ^ 53)" by linarith
  then obtain m' where m': "m = 2 * m'" "\<bar>m'\<bar> < 2 ^ 53"
    by (elim disjE) (rule that [of "2 ^ 52"], simp, simp, rule that [of "- (2 ^ 52)"], simp, simp)
  have "real_of_int m * 2 powr real_of_int j = real_of_int m' * 2 powr real_of_int (j + 1)"
    by (simp add: m' powr_add)
  moreover have "roundDouble (real_of_int m' * 2 powr real_of_int (j + 1))
                   = real_of_int m' * 2 powr real_of_int (j + 1)"
    using m'(2) j by (intro roundDouble_dyadic_strict) simp_all
  ultimately show ?thesis by simp
qed








lemma tiny_pos: "0 < tiny"
  by (simp add: tiny_def)



text \<open>
  Ties go to the even neighbour, half the least positive double rounds to 0, the
  largest finite double is kept, and the power of two above it overflows.
\<close>

lemma rne_ties:
  "rne (1 / 2) = 0 \<and> rne (3 / 2) = 2 \<and> rne (5 / 2) = 2
   \<and> rne (- (1 / 2)) = 0 \<and> rne (- (3 / 2)) = - 2"
  by (simp add: rne_def Let_def)

lemma roundDouble_tiny: "roundDouble tiny = 0"
proof -
  have "log 2 tiny = - 1075" by (simp add: tiny_def)
  then have "binade tiny = - 1022" using tiny_pos by (simp add: binade_def)
  then have q: "quantum tiny = 2 powr (- 1074)" by (simp add: quantum_def)
  have "tiny / quantum tiny = 2 powr (- 1075) / 2 powr (- 1074)"
    by (simp only: q) (simp only: tiny_def)
  also have "\<dots> = 2 powr (- 1075 - (- 1074))" by (simp only: powr_diff)
  also have "\<dots> = 1 / 2" by (simp add: powr_minus)
  finally have "tiny / quantum tiny = 1 / 2" .
  then have "rne (tiny / quantum tiny) = 0" using rne_ties by simp
  then show ?thesis by (simp add: roundDouble_def)
qed

lemma toDouble_largest: "toDouble maxDouble = Inr maxDouble"
proof -
  have "roundDouble (real_of_int (2 ^ 53 - 1) * 2 powr real_of_int 971)
          = real_of_int (2 ^ 53 - 1) * 2 powr real_of_int 971"
    by (rule roundDouble_dyadic) simp_all
  moreover have "real_of_int (2 ^ 53 - 1) * 2 powr real_of_int 971 = maxDouble"
    by (simp add: maxDouble_def powr_realpow [symmetric])
  ultimately have "roundDouble maxDouble = maxDouble" by simp
  moreover have "0 \<le> maxDouble" by (simp add: maxDouble_def)
  ultimately show ?thesis by (simp add: toDouble_def)
qed

lemma toDouble_overflow: "toDouble (2 ^ 1024) = Inl NotFinite"
proof -
  have "roundDouble (real_of_int 1 * 2 powr real_of_int 1024)
          = real_of_int 1 * 2 powr real_of_int 1024"
    by (rule roundDouble_dyadic) simp_all
  moreover have "real_of_int 1 * 2 powr real_of_int 1024 = 2 ^ 1024"
    by (simp add: powr_realpow [symmetric])
  ultimately have "roundDouble (2 ^ 1024) = 2 ^ 1024" by simp
  then show ?thesis by (simp add: toDouble_def maxDouble_def)
qed

subsection \<open>The error of the trimmed length\<close>








lemma consD_Inr [simp]: "consD s (Inr out) = Inr (s # out)"
  by (simp add: consD_def)



























text \<open>
  C9 (counterexample). A slider without control points gets a curve of one sample, the
  start point: every generator returns a list of fewer than two points unchanged, and
  so does the trimming.
\<close>

theorem C9_counterexample:
  "generateCurve ''B'' 100 100 [] 100 100 = Inr [Some (100, 100)]"
  by (simp add: generateCurve_def sampleCurve_single trimCurveToLength_def)

lemma loadObject_returns_example:
  "\<exists>c. loadObject tickDifficulty [] repeatObject = Inr (preparedSlider c)"
proof -
  obtain curve where c: "generateCurve ''L'' 256 192 [(396, 192)] 140 100 = Inr curve"
    using sampleCurve_returns [of "''L''" "[(256, 192), (396, 192)]" 100]
    by (auto simp: generateCurve_def)
  have "loadObject tickDifficulty [] repeatObject = Inr (preparedSlider curve)"
    by (simp add: loadObject_def repeatObject_def tickDifficulty_def preparedSlider_def
          normalDifficulty_def c getSliderDuration_def getBeatLengthAtTime_def Let_def)
  then show ?thesis by blast
qed

lemma generateCurve_two:
  assumes "ctrl \<noteq> []" and "0 < resolution"
  shows "\<exists>pts. generateCurve ctype sx sy ctrl len resolution = Inr pts \<and> 2 \<le> length pts"
proof -
  from assms(1) have "2 \<le> length ((sx, sy) # ctrl)"
    by (cases ctrl) auto
  then obtain raw where "sampleCurve ctype ((sx, sy) # ctrl) resolution = Inr raw"
    and "2 \<le> length raw"
    using sampleCurve_two [OF _ assms(2)] by blast
  then show ?thesis
    by (simp add: generateCurve_def trimCurveToLength_two)
qed

lemma generateCurve_single:
  "generateCurve ctype sx sy [] len resolution = Inr [Some (sx, sy)]"
  by (simp add: generateCurve_def sampleCurve_single trimCurveToLength_def)

lemma loadObject_curve:
  assumes "loadObject d tps obj = Inr h" and "pType obj = Slider"
  shows "generateCurve (curveType obj) (pX obj) (pY obj) (controlPoints obj) (pLength obj) 100
           = Inr (curvePoints h)"
  using assms by (auto simp: loadObject_def Let_def split: sum.splits)

text \<open>
  C9 (amended). For a positive resolution the curve returned by \<open>generateCurve\<close>
  has at least 2 samples whenever the control-point list is not empty; with an empty
  control-point list it is the start point alone. So the curve of a slider prepared
  for play (\<open>loadBeatmap\<close> passes resolution 100) has at least 2 samples when the
  slider has a control point, and one sample when it has none.
\<close>

theorem C9_curve_samples:
  "(ctrl \<noteq> [] \<and> 0 < resolution \<longrightarrow>
      (\<exists>pts. generateCurve ctype startX startY ctrl targetLength resolution = Inr pts
             \<and> 2 \<le> length pts))
   \<and> generateCurve ctype startX startY [] targetLength resolution
        = Inr [Some (startX, startY)]
   \<and> (loadObject d tps obj = Inr h \<and> pType obj = Slider \<longrightarrow>
        (if controlPoints obj = [] then curvePoints h = [Some (pX obj, pY obj)]
         else 2 \<le> length (curvePoints h)))"
proof -
  have prepared: "if controlPoints obj = [] then curvePoints h = [Some (pX obj, pY obj)]
         else 2 \<le> length (curvePoints h)"
    if "loadObject d tps obj = Inr h" and "pType obj = Slider"
    using loadObject_curve [OF that]
      generateCurve_two [of "controlPoints obj" 100 "curveType obj" "pX obj" "pY obj" "pLength obj"]
      generateCurve_single [of "curveType obj" "pX obj" "pY obj" "pLength obj" 100]
    by (cases "controlPoints obj = []") auto
  from generateCurve_two [of ctrl resolution ctype startX startY targetLength]
    generateCurve_single [of ctype startX startY targetLength resolution] prepared
  show ?thesis by blast
qed

theorem C9_curve_samples_witness:
  "[(8, 0)] \<noteq> ([] :: point list) \<and> 0 < (4 :: nat)
   \<and> (\<exists>pts. generateCurve ''P'' 0 0 [(8, 0)] 5 4 = Inr pts \<and> 2 \<le> length pts)
   \<and> (\<exists>h. loadObject tickDifficulty [] repeatObject = Inr h \<and> pType repeatObject = Slider
          \<and> controlPoints repeatObject \<noteq> [] \<and> 2 \<le> length (curvePoints h))"
proof -
  obtain c where load: "loadObject tickDifficulty [] repeatObject = Inr (preparedSlider c)"
    using loadObject_returns_example by blast
  have obj: "pType repeatObject = Slider \<and> controlPoints repeatObject \<noteq> []"
    by (simp add: repeatObject_def)
  show ?thesis
    using C9_curve_samples [where ctrl = "[(8, 0)]" and resolution = 4 and ctype = "''P''"
        and startX = 0 and startY = 0 and targetLength = 5 and d = tickDifficulty
        and tps = "[]" and obj = repeatObject and h = "preparedSlider c"]
      load obj
    by auto
qed

section \<open>Key/value lines\<close>

lemma indexOf_takeWhile:
  "indexOf c s = (if c \<in> set s then int (length (takeWhile (\<lambda>x. x \<noteq> c) s)) else - 1)"
  by (induction s) (auto simp: Let_def)

lemma metadataStep_spec:
  "metadataStep entries line =
     (if CHR '':'' \<in> set line
      then entries(fst (keyValue_spec line) \<mapsto> snd (keyValue_spec line))
      else entries)"
proof -
  have t: "take (length (takeWhile P xs)) xs = takeWhile P xs" for P and xs :: string
    by (induction xs) auto
  have d: "drop (Suc (length (takeWhile P xs))) xs = drop 1 (dropWhile P xs)"
    for P and xs :: string
    by (induction xs) auto
  show ?thesis
    by (simp add: metadataStep_def indexOf_takeWhile keyValue_spec_def Let_def t d nat_add_distrib)
qed

lemma splitOn_first:
  "splitOn sep s =
     takeWhile (\<lambda>x. x \<noteq> sep) s
       # (if sep \<in> set s then splitOn sep (drop 1 (dropWhile (\<lambda>x. x \<noteq> sep) s)) else [])"
proof (induction s)
  case Nil
  show ?case by simp
next
  case (Cons c s)
  then show ?case by (cases "splitOn sep s") auto
qed

lemma generalStep_cut:
  "generalStep entries line =
     (if CHR '':'' \<in> set line \<and> fst (keyValue_spec line) \<noteq> []
      then entries(fst (keyValue_spec line) \<mapsto>
             trim (takeWhile (\<lambda>c. c \<noteq> CHR '':'')
                     (drop 1 (dropWhile (\<lambda>c. c \<noteq> CHR '':'') line))))
      else entries)"
proof -
  define rest where "rest = drop 1 (dropWhile (\<lambda>c. c \<noteq> CHR '':'') line)"
  obtain others where others:
    "splitOn CHR '':'' rest = takeWhile (\<lambda>c. c \<noteq> CHR '':'') rest # others"
    using splitOn_first [of "CHR '':''" rest] by blast
  have "splitOn CHR '':'' line =
          takeWhile (\<lambda>c. c \<noteq> CHR '':'') line
            # (if CHR '':'' \<in> set line
               then takeWhile (\<lambda>c. c \<noteq> CHR '':'') rest # others else [])"
    using splitOn_first [of "CHR '':''" line] others by (simp add: rest_def)
  then show ?thesis
    by (simp add: generalStep_def keyValue_spec_def rest_def)
qed

text \<open>
  C4 (the code at the failing input). \<open>parseMetadata\<close> cuts a line at its first
  colon and keeps the whole remainder (\<open>metadataStep_spec\<close>), but
  \<open>parseGeneral\<close> and \<open>parseDifficulty\<close> split the line at every colon and keep
  the second part only (\<open>generalStep_cut\<close>): the General line
  \<open>AudioFilename: a:b.mp3\<close> yields the audio file name \<open>a\<close>, while the text
  after the first colon is \<open>a:b.mp3\<close>.
\<close>

theorem C4_general_value_cut:
  "audioFilename (parseGeneral parseInt [''AudioFilename: a:b.mp3'']) = ''a''
   \<and> keyValue_spec ''AudioFilename: a:b.mp3'' = (''AudioFilename'', ''a:b.mp3'')
   \<and> title (parseMetadata [''Title: a:b'']) = ''a:b''"
  by (simp add: parseGeneral_def generalStep_def parseMetadata_def metadataStep_def trim_def
        isSpace_def keyValue_spec_def textOr_def Let_def)

section \<open>Combo numbering\<close>

text \<open>
  When every line that is not skipped pushes an object, the numbering is the one the
  specification describes.
\<close>

lemma objectLoop_chain:
  "\<forall>l \<in> set lines. 4 \<le> partsCount l \<and> fieldType l AND 8 = 0 \<longrightarrow> emitsObject l \<Longrightarrow>
     comboChain number (objectLoop lines number colorIndex n)"
proof (induction lines arbitrary: number colorIndex)
  case Nil
  show ?case by simp
next
  case (Cons l ls)
  then have IH: "comboChain k (objectLoop ls k c n)" for k c by simp
  from Cons.prems have emits: "4 \<le> partsCount l \<and> fieldType l AND 8 = 0 \<longrightarrow> emitsObject l"
    by simp
  show ?case
    using IH emits
    by (auto simp: Let_def emitsObject_def circleObject_def sliderObject_def)
qed

text \<open>
  C8 (the code at the failing input). A line of at least four parts whose type has
  none of the circle, slider and spinner bits (here 128) pushes no object, but the
  combo counter has been advanced for it already: the circle after it gets number 3,
  the circle before it has number 1, and neither carries the new-combo flag.
\<close>

theorem C8_combo_gap:
  "map comboNumber (parseHitObjects gapLines 4) = [1, 3]
   \<and> map isNewCombo (parseHitObjects gapLines 4) = [False, False]
   \<and> \<not> comboChain 0 (parseHitObjects gapLines 4)"
  by (simp add: parseHitObjects_def gapLines_def objectLine_def circleObject_def Let_def)

section \<open>Slider completion and misses\<close>

lemma sliderTickRatio_unchanged:
  "sliderTickRatio (h\<lparr>state := s\<rparr>) = sliderTickRatio h"
  "sliderTickRatio (h\<lparr>endHit := b\<rparr>) = sliderTickRatio h"
  by (simp_all add: sliderTickRatio_def Let_def)

lemma sliderHitValue_unchanged:
  "sliderHitValue (h\<lparr>state := s\<rparr>) = sliderHitValue h"
  "sliderHitValue (h\<lparr>endHit := b\<rparr>) = sliderHitValue h"
  by (simp_all add: sliderHitValue_def sliderTickRatio_unchanged Let_def)

lemma completionStats_unchanged:
  "completionStats (h\<lparr>state := st\<rparr>) s = completionStats h s"
  "completionStats (h\<lparr>endHit := b\<rparr>) s = completionStats h s"
  by (simp_all add: completionStats_def sliderHitValue_unchanged)

lemma completeSlider_stats:
  "stats (completeSlider g k) = completionStats (hitObjects g ! k) (stats g)"
  by (simp add: completeSlider_def removeActiveObject_def setObject_def Let_def
        completionStats_unchanged)

lemma zero_ratio_value: "sliderTickRatio h = 0 \<Longrightarrow> sliderHitValue h = 0"
  by (simp add: sliderHitValue_def)

lemma completionStats_miss:
  "sliderHitValue h = 0 \<Longrightarrow>
     misses (completionStats h s) = misses s + 1
     \<and> combo (completionStats h s) = 0
     \<and> health (completionStats h s) = max 0 (health s - 5)"
  by (simp add: completionStats_def)

lemma repeatSlider_ratio:
  "0 < n \<Longrightarrow> sliderTickRatio (repeatSlider n hits) = real_of_int hits / real_of_int (n * n)"
  by (simp add: sliderTickRatio_def repeatSlider_def zero_less_mult_iff)

lemma completionStats_100:
  "sliderHitValue h = 100 \<Longrightarrow>
     hit100 (completionStats h s) = hit100 s + 1 \<and> hit300 (completionStats h s) = hit300 s"
  by (simp add: completionStats_def)

lemma repeat_slider_never_300:
  assumes "0 < totalTicks h" and "2 \<le> slides h" and "ticksHit h \<le> totalTicks h"
  shows "sliderHitValue h \<noteq> 300"
proof -
  have pos: "0 < totalTicks h * slides h"
    using assms(1,2) by (simp add: zero_less_mult_iff)
  have "2 * ticksHit h \<le> totalTicks h * slides h"
  proof -
    have "2 * ticksHit h \<le> 2 * totalTicks h" using assms(3) by simp
    also have "\<dots> \<le> totalTicks h * slides h"
      using assms(1,2) by (simp add: mult.commute mult_left_mono)
    finally show ?thesis .
  qed
  then have "real_of_int (2 * ticksHit h) \<le> real_of_int (totalTicks h * slides h)"
    by (simp only: of_int_le_iff)
  then have "real_of_int (ticksHit h) \<le> (1 / 2) * real_of_int (totalTicks h * slides h)"
    by simp
  moreover have "0 < real_of_int (totalTicks h * slides h)"
    using pos by (simp only: of_int_0_less_iff)
  ultimately have "real_of_int (ticksHit h) / real_of_int (totalTicks h * slides h) \<le> 1 / 2"
    by (simp only: pos_divide_le_eq)
  then have "sliderTickRatio h \<le> 1 / 2"
    using pos by (simp add: sliderTickRatio_def Let_def)
  then show ?thesis
    by (simp add: sliderHitValue_def Let_def)
qed

lemma single_slide_tier:
  assumes "slides h = 1" and "0 < totalTicks h"
  shows "sliderHitValue h =
     (let fraction = real_of_int (ticksHit h) / real_of_int (totalTicks h)
      in if fraction \<ge> 0.9 \<and> \<not> trackingBroken h then 300
         else if fraction \<ge> 0.5 then 100
         else if fraction > 0 then 50
         else 0)"
  using assms by (simp add: sliderHitValue_def sliderTickRatio_def Let_def)

lemma loadObject_totalTicks:
  "loadObject d tps obj = Inr h \<Longrightarrow> totalTicks h = ticksPerSlide h * slides h"
  by (auto simp: loadObject_def getSliderDuration_def Let_def split: if_splits sum.splits)

lemma awardTicks_bound:
  assumes "k < length (hitObjects g)" and "ticksHit (hitObjects g ! k) \<le> totalTicks (hitObjects g ! k)"
  shows "ticksHit (hitObjects (awardTicks g k e) ! k) \<le> totalTicks (hitObjects (awardTicks g k e) ! k)"
  using assms
  by (auto simp: awardTicks_def setObject_def Let_def split: option.splits)

text \<open>
  The slider of two slides with both of its ticks hit and tracking never broken: the
  fraction of ticks hit is 1, the ratio of \<open>completeSlider\<close> is 1/2 and the value
  is 100.
\<close>

lemma repeat_slider_value:
  "real_of_int (ticksHit (repeatSlider 2 2)) / real_of_int (totalTicks (repeatSlider 2 2)) = 1
   \<and> \<not> trackingBroken (repeatSlider 2 2)
   \<and> sliderTickRatio (repeatSlider 2 2) = 1 / 2
   \<and> sliderHitValue (repeatSlider 2 2) = 100
   \<and> hit300 (stats (completeSlider (oneSliderGame 2 2) 0)) = 0
   \<and> hit100 (stats (completeSlider (oneSliderGame 2 2) 0)) = 1"
proof -
  have fields: "real_of_int (ticksHit (repeatSlider 2 2))
                  / real_of_int (totalTicks (repeatSlider 2 2)) = 1
                \<and> \<not> trackingBroken (repeatSlider 2 2)"
    by (simp add: repeatSlider_def)
  have ratio: "sliderTickRatio (repeatSlider 2 2) = 1 / 2"
    by (simp add: repeatSlider_ratio)
  have val: "sliderHitValue (repeatSlider 2 2) = 100"
    by (simp add: sliderHitValue_def ratio)
  have obj: "hitObjects (oneSliderGame 2 2) ! 0 = repeatSlider 2 2"
    by (simp add: oneSliderGame_def)
  have s0: "hit300 (stats (oneSliderGame 2 2)) = 0 \<and> hit100 (stats (oneSliderGame 2 2)) = 0"
    by (simp add: oneSliderGame_def createEmptyStats_def)
  show ?thesis
    using completionStats_100 [OF val, of "stats (oneSliderGame 2 2)"] fields ratio val s0
    by (simp add: completeSlider_stats obj)
qed

lemma loadBeatmap_repeat:
  "\<exists>curve. loadBeatmap tickDifficulty [] [repeatObject]
     = Inr \<lparr>stats = createEmptyStats, beatmapDifficulty = tickDifficulty,
            hitObjects =
              [\<lparr>objX = 256, objY = 192, objTime = 1000, objType = Slider, state = PENDING,
                slides = 2, slideDuration = 500, totalDuration = 1000, tracking = False,
                trackingBroken = False, startHitValue = 0, ticksHit = 0, ticksPerSlide = 1,
                totalTicks = 2, tickSpacing = 250, endHit = False, curvePoints = curve\<rparr>],
            activeObjects = [], nextObjectIndex = 0\<rparr>"
proof -
  obtain curve where c: "generateCurve ''L'' 256 192 [(396, 192)] 140 100 = Inr curve"
    using sampleCurve_returns [of "''L''" "[(256, 192), (396, 192)]" 100]
    by (auto simp: generateCurve_def)
  have "loadBeatmap tickDifficulty [] [repeatObject]
     = Inr \<lparr>stats = createEmptyStats, beatmapDifficulty = tickDifficulty,
            hitObjects =
              [\<lparr>objX = 256, objY = 192, objTime = 1000, objType = Slider, state = PENDING,
                slides = 2, slideDuration = 500, totalDuration = 1000, tracking = False,
                trackingBroken = False, startHitValue = 0, ticksHit = 0, ticksPerSlide = 1,
                totalTicks = 2, tickSpacing = 250, endHit = False, curvePoints = curve\<rparr>],
            activeObjects = [], nextObjectIndex = 0\<rparr>"
    by (simp add: loadBeatmap_def loadObject_def repeatObject_def tickDifficulty_def
          normalDifficulty_def c getSliderDuration_def getBeatLengthAtTime_def Let_def)
  then show ?thesis by blast
qed

lemma headHit_fields:
  "state (headHit c) = SLIDING" "objTime (headHit c) = 1000" "totalDuration (headHit c) = 1000"
  "tracking (headHit c)" "\<not> trackingBroken (headHit c)" "totalTicks (headHit c) = 2"
  "ticksHit (headHit c) = 0" "ticksPerSlide (headHit c) = 1" "tickSpacing (headHit c) = 250"
  "slideDuration (headHit c) = 500" "slides (headHit c) = 2"
  by (simp_all add: headHit_def preparedSlider_def)

lemma repeat_passed_ticks: "getPassedSliderTicks (headHit c) 1000 = Some 2"
  by (simp add: getPassedSliderTicks_def headHit_fields Let_def)

lemma repeat_award:
  "awardTicks (loadedGame (headHit c) s [0] n) 0 1000
     = loadedGame ((headHit c)\<lparr>ticksHit := 2\<rparr>) (tickStats 2 s) [0] n"
  by (simp add: awardTicks_def loadedGame_def headHit_fields repeat_passed_ticks setObject_def Let_def)

lemma repeat_value: "sliderHitValue ((headHit c)\<lparr>ticksHit := 2\<rparr>) = 100"
  by (simp add: sliderHitValue_def sliderTickRatio_def headHit_fields Let_def)

lemma repeat_complete:
  "completeSlider (loadedGame ((headHit c)\<lparr>ticksHit := 2\<rparr>) s [0] n) 0
     = loadedGame ((headHit c)\<lparr>ticksHit := 2, state := HIT_300, endHit := True\<rparr>)
         (completionStats ((headHit c)\<lparr>ticksHit := 2\<rparr>) s) [] n"
  by (simp add: completeSlider_def loadedGame_def headHit_fields setObject_def
        removeActiveObject_def completionStats_unchanged Let_def)

lemma repeat_body:
  "0 \<le> r \<Longrightarrow>
   sliderBody onBall 2000 r (256, 192) True (loadedGame (headHit c) s [0] n) 0
     = completeSlider (awardTicks (loadedGame (headHit c) s [0] n) 0 1000) 0"
  by (simp add: sliderBody_def loadedGame_def headHit_fields onBall_def hypot_def Let_def)

lemma repeat_stats:
  "completionStats ((headHit c)\<lparr>ticksHit := 2\<rparr>) (tickStats 2 afterHead) = afterSlider"
  by (simp add: completionStats_def repeat_value tickStats_def afterHead_def afterSlider_def
        createEmptyStats_def headHit_fields Let_def)

lemma loadedGame_activated:
  "activateObjects (loadedGame h s act (Suc 0)) t a = loadedGame h s act (Suc 0)"
  by (subst activateObjects.simps) (simp add: loadedGame_def)

lemma repeat_no_miss:
  "missLoop t w (Suc 0) (loadedGame (headHit c) s [0] n) = loadedGame (headHit c) s [0] n"
proof -
  have "missBody t w (loadedGame (headHit c) s [0] n) 0 = loadedGame (headHit c) s [0] n"
    by (simp add: missBody_def loadedGame_def headHit_fields)
  moreover have "activeObjects (loadedGame (headHit c) s [0] n) ! 0 = 0"
    by (simp add: loadedGame_def)
  ultimately show ?thesis by simp
qed

lemma repeat_sliders:
  "updateSliders onBall (loadedGame (headHit c) afterHead [0] n) 2000
       (getCircleRadius 4) (256, 192) True
     = loadedGame ((headHit c)\<lparr>ticksHit := 2, state := HIT_300, endHit := True\<rparr>)
         afterSlider [] n"
proof -
  have r: "0 \<le> getCircleRadius 4 * 2.4"
    by (simp add: getCircleRadius_def)
  have act: "activeObjects (loadedGame (headHit c) afterHead [0] n) = [0]"
    by (simp add: loadedGame_def)
  have "sliderBody onBall 2000 (getCircleRadius 4 * 2.4) (256, 192) True
          (loadedGame (headHit c) afterHead [0] n) 0
        = loadedGame ((headHit c)\<lparr>ticksHit := 2, state := HIT_300, endHit := True\<rparr>)
            afterSlider [] n"
    by (simp only: repeat_body [OF r] repeat_award repeat_complete repeat_stats)
  then show ?thesis
    by (simp add: updateSliders_def act)
qed

lemma repeat_last_frame:
  "update onBall (loadedGame (headHit c) afterHead [0] (Suc 0)) 2000 (256, 192) True
     = loadedGame ((headHit c)\<lparr>ticksHit := 2, state := HIT_300, endHit := True\<rparr>)
         afterSlider [] (Suc 0)"
proof -
  have d: "beatmapDifficulty (loadedGame h s act m) = tickDifficulty" for h s act m
    by (simp add: loadedGame_def)
  have cs: "circleSize tickDifficulty = 4"
    by (simp add: tickDifficulty_def normalDifficulty_def)
  have act: "length (activeObjects (loadedGame (headHit c) afterHead [0] (Suc 0))) = Suc 0"
    by (simp add: loadedGame_def)
  have alive: "\<not> health (stats (loadedGame h afterSlider a m)) \<le> 0" for h a m
    by (simp add: loadedGame_def afterSlider_def createEmptyStats_def)
  show ?thesis
    unfolding update_def Let_def d cs loadedGame_activated act repeat_no_miss repeat_sliders
    using alive by simp
qed


lemma repeat_first_frame:
  "update onBall (loadedGame (preparedSlider c) createEmptyStats [] 0) 0 (256, 192) True
     = loadedGame ((preparedSlider c)\<lparr>state := ACTIVE\<rparr>) createEmptyStats [0] (Suc 0)"
  by (simp add: update_def loadedGame_def preparedSlider_def tickDifficulty_def
        normalDifficulty_def activateObjects.simps setObject_def getApproachTime_def
        getHitWindows_def getCircleRadius_def missBody_def updateSliders_def sliderBody_def
        createEmptyStats_def Let_def)

lemma repeat_input:
  "processHitAtPosition
     (loadedGame ((preparedSlider c)\<lparr>state := ACTIVE\<rparr>) createEmptyStats [0] (Suc 0))
     (256, 192) 1000
   = loadedGame (headHit c) afterHead [0] (Suc 0)"
  by (simp add: processHitAtPosition_def loadedGame_def preparedSlider_def tickDifficulty_def
        normalDifficulty_def setObject_def startSlider_def hitValueFor_def headHit_def
        getHitWindows_def getCircleRadius_def hypot_def afterHead_def
        createEmptyStats_def Let_def)

lemma repeat_play:
  "session (loadedGame (preparedSlider c) createEmptyStats [] 0) repeatPlay
     = loadedGame ((headHit c)\<lparr>ticksHit := 2, state := HIT_300, endHit := True\<rparr>)
         afterSlider [] (Suc 0)"
  by (simp only: session_def repeatPlay_def foldl.simps applyOp.simps repeat_first_frame repeat_input repeat_last_frame)

text \<open>
  C1 (the code at the failing input). The chart has a slider of two slides with one
  tick per slide, so \<open>loadBeatmap\<close> gives it \<open>totalTicks = 2\<close>. Its head is hit,
  the input stays held on the ball, and the frame at the end of the slider awards both
  ticks and completes it: the fraction of ticks hit is 2/2 = 1 and tracking was never
  broken, but \<open>completeSlider\<close> divides by \<open>totalTicks * slides = 4\<close>, finds the
  ratio 1/2 and counts a 100, not a 300. (\<open>repeat_slider_never_300\<close>: no slider with
  ticks and two or more slides can reach 300; \<open>single_slide_tier\<close>: with one slide
  the tiers are those of the fraction of ticks hit.)
\<close>

theorem C1_repeat_slider:
  "\<exists>g0. loadBeatmap tickDifficulty [] [repeatObject] = Inr g0
     \<and> slides (hitObjects g0 ! 0) = 2
     \<and> totalTicks (hitObjects g0 ! 0) = 2
     \<and> ticksHit (hitObjects (session g0 repeatPlay) ! 0) = 2
     \<and> \<not> trackingBroken (hitObjects (session g0 repeatPlay) ! 0)
     \<and> hit300 (stats (session g0 repeatPlay)) = 0
     \<and> hit100 (stats (session g0 repeatPlay)) = 1"
proof -
  obtain c where load: "loadBeatmap tickDifficulty [] [repeatObject]
      = Inr (loadedGame (preparedSlider c) createEmptyStats [] 0)"
    using loadBeatmap_repeat by (auto simp: loadedGame_def preparedSlider_def)
  have before: "slides (hitObjects (loadedGame (preparedSlider c) createEmptyStats [] 0) ! 0) = 2
     \<and> totalTicks (hitObjects (loadedGame (preparedSlider c) createEmptyStats [] 0) ! 0) = 2"
    by (simp add: loadedGame_def preparedSlider_def)
  have after: "ticksHit (hitObjects (loadedGame
        ((headHit c)\<lparr>ticksHit := 2, state := HIT_300, endHit := True\<rparr>)
        afterSlider [] (Suc 0)) ! 0) = 2
     \<and> \<not> trackingBroken (hitObjects (loadedGame
        ((headHit c)\<lparr>ticksHit := 2, state := HIT_300, endHit := True\<rparr>)
        afterSlider [] (Suc 0)) ! 0)
     \<and> hit300 (stats (loadedGame
        ((headHit c)\<lparr>ticksHit := 2, state := HIT_300, endHit := True\<rparr>)
        afterSlider [] (Suc 0))) = 0
     \<and> hit100 (stats (loadedGame
        ((headHit c)\<lparr>ticksHit := 2, state := HIT_300, endHit := True\<rparr>)
        afterSlider [] (Suc 0))) = 1"
    by (simp add: loadedGame_def headHit_fields afterSlider_def createEmptyStats_def)
  show ?thesis
    using load before after by (simp add: repeat_play)
qed

lemma droppedGame_fields:
  "hitObjects droppedGame ! 0 = (repeatSlider 1 0)\<lparr>tracking := False, trackingBroken := True\<rparr>
   \<and> health (stats droppedGame) = 100 \<and> misses (stats droppedGame) = 0"
  by (simp add: droppedGame_def breakTracking_def setObject_def oneSliderGame_def
        createEmptyStats_def Let_def)

lemma droppedGame_ratio: "sliderTickRatio (hitObjects droppedGame ! 0) = 0"
  by (simp add: droppedGame_fields sliderTickRatio_def repeatSlider_def)

text \<open>
  C3 (counterexample). A slider whose tracking was lost before its tick completes with a
  zero tick ratio: it is counted as a miss, and the health goes from 100 to 95, not to
  92. Losing the tracking itself left the health at 100.
\<close>

theorem C3_counterexample:
  "health (stats (oneSliderGame 1 0)) = 100
   \<and> health (stats droppedGame) = 100
   \<and> trackingBroken (hitObjects droppedGame ! 0)
   \<and> sliderTickRatio (hitObjects droppedGame ! 0) = 0
   \<and> misses (stats (completeSlider droppedGame 0)) = 1
   \<and> health (stats (completeSlider droppedGame 0)) = 95"
proof -
  have h: "health (stats (oneSliderGame 1 0)) = 100"
    by (simp add: oneSliderGame_def createEmptyStats_def)
  have broken: "trackingBroken (hitObjects droppedGame ! 0)"
    by (simp add: droppedGame_fields)
  have s0: "health (stats droppedGame) = 100 \<and> misses (stats droppedGame) = 0"
    by (simp add: droppedGame_fields)
  have completed: "misses (stats (completeSlider droppedGame 0)) = 1
              \<and> health (stats (completeSlider droppedGame 0)) = 95"
    using completionStats_miss [OF zero_ratio_value [OF droppedGame_ratio], of "stats droppedGame"]
    by (simp add: completeSlider_stats s0)
  from h s0 broken droppedGame_ratio completed show ?thesis by blast
qed

text \<open>
  C3 (amended). A circle or a never-started slider that times out past the 50 window
  is a miss that subtracts exactly 8 from health, clamped below at 0
  (\<open>processMiss\<close>, \<open>processSliderMiss\<close>); a slider that completes with a zero
  tick ratio is a miss that subtracts 5, clamped below at 0; losing the tracking of a
  slider leaves the health unchanged.
\<close>

theorem C3_miss_health:
  "health (stats (processMiss g k)) = max 0 (health (stats g) - 8)
   \<and> health (stats (processSliderMiss g k)) = max 0 (health (stats g) - 8)
   \<and> (state (hitObjects g ! k) = ACTIVE \<and> currentTime > objTime (hitObjects g ! k) + window50 w
        \<longrightarrow> misses (stats (missBody currentTime w g k)) = misses (stats g) + 1
            \<and> health (stats (missBody currentTime w g k)) = max 0 (health (stats g) - 8))
   \<and> (sliderTickRatio (hitObjects g ! k) = 0
        \<longrightarrow> misses (stats (completeSlider g k)) = misses (stats g) + 1
            \<and> health (stats (completeSlider g k)) = max 0 (health (stats g) - 5))
   \<and> health (stats (breakTracking g k)) = health (stats g)"
proof -
  have circle: "health (stats (processMiss g k)) = max 0 (health (stats g) - 8)"
    "misses (stats (processMiss g k)) = misses (stats g) + 1"
    by (simp_all add: processMiss_def removeActiveObject_def setObject_def Let_def)
  have slider: "health (stats (processSliderMiss g k)) = max 0 (health (stats g) - 8)"
    "misses (stats (processSliderMiss g k)) = misses (stats g) + 1"
    by (simp_all add: processSliderMiss_def removeActiveObject_def setObject_def Let_def)
  have timeout: "misses (stats (missBody currentTime w g k)) = misses (stats g) + 1
            \<and> health (stats (missBody currentTime w g k)) = max 0 (health (stats g) - 8)"
    if "state (hitObjects g ! k) = ACTIVE"
      and "currentTime > objTime (hitObjects g ! k) + window50 w"
    using that circle slider by (simp add: missBody_def Let_def)
  have zero: "misses (stats (completeSlider g k)) = misses (stats g) + 1
            \<and> health (stats (completeSlider g k)) = max 0 (health (stats g) - 5)"
    if "sliderTickRatio (hitObjects g ! k) = 0"
    using completionStats_miss [OF zero_ratio_value [OF that]]
    by (simp add: completeSlider_stats)
  have broken: "health (stats (breakTracking g k)) = health (stats g)"
    by (simp add: breakTracking_def setObject_def Let_def)
  from circle(1) slider(1) timeout zero broken show ?thesis by blast
qed

theorem C3_miss_health_witness:
  "health (stats (missBody 1151 (getHitWindows 5) oneCircleGame 0)) = 92
   \<and> misses (stats (missBody 1151 (getHitWindows 5) oneCircleGame 0)) = 1
   \<and> health (stats (completeSlider droppedGame 0)) = 95
   \<and> misses (stats (completeSlider droppedGame 0)) = 1
   \<and> health (stats (breakTracking (oneSliderGame 1 0) 0)) = 100"
proof -
  have circle: "state (hitObjects oneCircleGame ! 0) = ACTIVE
      \<and> 1151 > objTime (hitObjects oneCircleGame ! 0) + window50 (getHitWindows 5)"
    by (simp add: oneCircleGame_def circleAt_def getHitWindows_def)
  have s0: "health (stats oneCircleGame) = 100 \<and> misses (stats oneCircleGame) = 0"
    by (simp add: oneCircleGame_def createEmptyStats_def)
  have s1: "health (stats (oneSliderGame 1 0)) = 100"
    by (simp add: oneSliderGame_def createEmptyStats_def)
  have s2: "health (stats droppedGame) = 100 \<and> misses (stats droppedGame) = 0"
    by (simp add: droppedGame_fields)
  show ?thesis
    using C3_miss_health [where g = oneCircleGame and k = 0 and currentTime = 1151
                             and w = "getHitWindows 5"]
          C3_miss_health [where g = droppedGame and k = 0 and currentTime = 1151
                             and w = "getHitWindows 5"]
          C3_miss_health [where g = "oneSliderGame 1 0" and k = 0 and currentTime = 1151
                             and w = "getHitWindows 5"]
          circle droppedGame_ratio s0 s1 s2
    by simp
qed

section \<open>Combo and maximum combo\<close>

lemma keeps_refl: "keeps g g"
  by (simp add: keeps_def)

lemma keeps_trans: "keeps g g' \<Longrightarrow> keeps g' g'' \<Longrightarrow> keeps g g''"
  by (auto simp: keeps_def)

lemma keeps_same_stats: "stats g' = stats g \<Longrightarrow> keeps g g'"
  by (simp add: keeps_def comboInv_def)

lemma keeps_startSlider: "keeps g (startSlider g k v)"
  by (simp add: keeps_def comboInv_def startSlider_def setObject_def Let_def)

lemma keeps_processHit: "keeps g (processHit g k v)"
  by (simp add: keeps_def comboInv_def processHit_def removeActiveObject_def Let_def)

lemma keeps_processMiss: "keeps g (processMiss g k)"
  by (simp add: keeps_def comboInv_def processMiss_def removeActiveObject_def setObject_def Let_def)

lemma keeps_processSliderMiss: "keeps g (processSliderMiss g k)"
  by (simp add: keeps_def comboInv_def processSliderMiss_def removeActiveObject_def
        setObject_def Let_def)

lemma keeps_breakTracking: "keeps g (breakTracking g k)"
  by (simp add: keeps_def comboInv_def breakTracking_def setObject_def Let_def)

lemma tickStats_combo:
  "0 < n \<Longrightarrow> 0 \<le> combo s \<Longrightarrow> combo s \<le> maxCombo s \<Longrightarrow>
     0 \<le> combo (tickStats n s) \<and> combo (tickStats n s) \<le> maxCombo (tickStats n s)
     \<and> maxCombo s \<le> maxCombo (tickStats n s)"
  by (simp add: tickStats_def Let_def)

lemma keeps_awardTicks: "keeps g (awardTicks g k e)"
proof -
  have award: "keeps g (g1\<lparr>stats := tickStats n (stats g)\<rparr>)" if "0 < n" for n g1
    using tickStats_combo [OF that, of "stats g"] by (simp add: keeps_def comboInv_def)
  show ?thesis
    unfolding awardTicks_def Let_def
    by (auto split: option.split simp: keeps_refl setObject_def intro!: award)
qed

lemma completionStats_combo:
  "maxCombo (completionStats h s) = maxCombo s
   \<and> (combo (completionStats h s) = combo s \<or> combo (completionStats h s) = 0)"
  by (simp add: completionStats_def Let_def)

lemma keeps_completeSlider: "keeps g (completeSlider g k)"
  using completionStats_combo [of "hitObjects g ! k" "stats g"]
  by (auto simp: keeps_def comboInv_def completeSlider_stats)

lemma keeps_tryObjects: "keeps g (tryObjects g pos t ks)"
proof (induction ks)
  case Nil
  show ?case by (simp add: keeps_refl)
next
  case (Cons k ks)
  have hit: "keeps g (processHit (setObject g k obj) k v)" for obj v
    by (rule keeps_trans [OF keeps_same_stats keeps_processHit]) (simp add: setObject_def)
  show ?case
    using Cons hit keeps_startSlider [of g k]
    by (simp add: Let_def)
qed

lemma keeps_processHitAtPosition: "keeps g (processHitAtPosition g pos t)"
  by (simp add: processHitAtPosition_def keeps_tryObjects)

lemma stats_activateObjects: "stats (activateObjects g t a) = stats g"
proof (induction g t a rule: activateObjects.induct)
  case (1 g t a)
  show ?case
    using "1.IH"
    by (subst activateObjects.simps) (simp add: setObject_def)
qed

lemma keeps_missBody: "keeps g (missBody t w g k)"
  by (simp add: missBody_def Let_def keeps_refl keeps_processMiss keeps_processSliderMiss)

lemma keeps_missLoop: "keeps g (missLoop t w i g)"
proof (induction i arbitrary: g)
  case 0
  show ?case by (simp add: keeps_refl)
next
  case (Suc i)
  show ?case
    using keeps_trans [OF keeps_missBody Suc] by simp
qed

lemma keeps_sliderBody: "keeps g (sliderBody ball t r pos h g k)"
proof (cases "state (hitObjects g ! k) = SLIDING")
  case False
  then show ?thesis by (simp add: sliderBody_def Let_def keeps_refl)
next
  case True
  define obj where "obj = hitObjects g ! k"
  define e where "e = max 0 (min (t - objTime obj) (totalDuration obj))"
  define g1 where "g1 =
     (if tracking obj \<and> \<not> trackingBroken obj then
        (if \<not> h \<or> hypot (fst pos - fst (ball obj e)) (snd pos - snd (ball obj e)) > r
         then breakTracking g k else g)
      else g)"
  define g2 where "g2 = awardTicks g1 k e"
  have k1: "keeps g g1"
    by (simp add: g1_def keeps_refl keeps_breakTracking)
  have k2: "keeps g1 g2"
    by (simp add: g2_def keeps_awardTicks)
  have k3: "keeps g2 (if t - objTime obj \<ge> totalDuration obj then completeSlider g2 k else g2)"
    by (simp add: keeps_refl keeps_completeSlider)
  have "sliderBody ball t r pos h g k
          = (if t - objTime obj \<ge> totalDuration obj then completeSlider g2 k else g2)"
    using True by (simp add: sliderBody_def Let_def obj_def e_def g1_def g2_def)
  then show ?thesis
    using keeps_trans [OF keeps_trans [OF k1 k2] k3] by simp
qed

lemma keeps_sliderLoop: "keeps g (sliderLoop ball t r pos h i g)"
proof (induction i arbitrary: g)
  case 0
  show ?case by (simp add: keeps_refl)
next
  case (Suc i)
  show ?case
    using keeps_trans [OF keeps_sliderBody Suc] by simp
qed

lemma keeps_update: "keeps g (update ball g t pos h)"
proof -
  define a where "a = getApproachTime (approachRate (beatmapDifficulty g))"
  define w where "w = getHitWindows (overallDifficulty (beatmapDifficulty g))"
  define r where "r = getCircleRadius (circleSize (beatmapDifficulty g))"
  define g1 where "g1 = activateObjects g t a"
  define g2 where "g2 = missLoop t w (length (activeObjects g1)) g1"
  define g3 where "g3 = updateSliders ball g2 t r pos h"
  have k1: "keeps g g1"
    by (simp add: g1_def keeps_same_stats stats_activateObjects)
  have k2: "keeps g1 g2"
    by (simp add: g2_def keeps_missLoop)
  have k3: "keeps g2 g3"
    by (simp add: g3_def updateSliders_def keeps_sliderLoop)
  have k4: "keeps g3 (g3\<lparr>stats := (stats g3)\<lparr>failed := True\<rparr>\<rparr>)"
    by (simp add: keeps_def comboInv_def)
  have k: "keeps g g3"
    using k1 k2 k3 keeps_trans by blast
  have "update ball g t pos h
          = (if health (stats g3) \<le> 0 \<and> \<not> failed (stats g3)
             then g3\<lparr>stats := (stats g3)\<lparr>failed := True\<rparr>\<rparr> else g3)"
    by (simp add: update_def Let_def g3_def g2_def g1_def a_def w_def r_def)
  then show ?thesis
    using k keeps_trans [OF k k4] by simp
qed

lemma keeps_applyOp: "keeps g (applyOp g op)"
  by (cases op)
     (simp_all add: keeps_startSlider keeps_processHit keeps_awardTicks keeps_breakTracking
        keeps_processMiss keeps_processSliderMiss keeps_completeSlider
        keeps_processHitAtPosition keeps_update)

lemma keeps_session: "keeps g (session g ops)"
  unfolding session_def
proof (induction ops arbitrary: g)
  case Nil
  show ?case by (simp add: keeps_refl)
next
  case (Cons op ops)
  show ?case
    using keeps_trans [OF keeps_applyOp Cons] by simp
qed

text \<open>
  C10. From the empty statistics of a session start, after every sequence of
  operations (slider start, circle hit, tick award, lost tracking, circle miss, slider
  miss, slider completion, an input event, a frame) the combo is at most the maximum
  combo, and whatever operations follow, the maximum combo does not decrease.
\<close>

theorem C10_combo_invariant:
  "stats g0 = createEmptyStats \<Longrightarrow>
     combo (stats (session g0 ops)) \<le> maxCombo (stats (session g0 ops))
     \<and> maxCombo (stats (session g0 ops)) \<le> maxCombo (stats (session g0 (ops @ later)))"
proof -
  assume fresh: "stats g0 = createEmptyStats"
  then have inv0: "comboInv g0"
    by (simp add: comboInv_def createEmptyStats_def)
  have inv: "comboInv (session g0 ops)"
    using keeps_session [of g0 ops] inv0 by (simp add: keeps_def)
  have "session g0 (ops @ later) = session (session g0 ops) later"
    by (simp add: session_def)
  then have "maxCombo (stats (session g0 ops)) \<le> maxCombo (stats (session g0 (ops @ later)))"
    using keeps_session [of "session g0 ops" later] inv by (simp add: keeps_def)
  with inv show ?thesis by (simp add: comboInv_def)
qed

theorem C10_combo_invariant_witness:
  "stats oneCircleGame = createEmptyStats
   \<and> combo (stats (session oneCircleGame [Input (256, 192) 1005]))
        \<le> maxCombo (stats (session oneCircleGame [Input (256, 192) 1005]))
   \<and> maxCombo (stats (session oneCircleGame [Input (256, 192) 1005]))
        \<le> maxCombo (stats (session oneCircleGame ([Input (256, 192) 1005] @ [CircleMiss 0])))"
  using C10_combo_invariant [of oneCircleGame "[Input (256, 192) 1005]" "[CircleMiss 0]"]
  by (simp add: oneCircleGame_def)

section \<open>Divisions that the model writes out\<close>

text \<open>
  The multiplier of the resolver is never a finite zero, and a slider prepared by
  \<open>loadBeatmap\<close> never makes \<open>getPassedSliderTicks\<close> divide by zero.
\<close>

lemma velocityOf_nonzero: "velocityOf mpb \<noteq> Finite 0"
  by (simp add: velocityOf_def)

lemma scan_multiplier_nonzero:
  "snd st \<noteq> Finite 0 \<Longrightarrow> snd (scanTimingPoints tps time st) \<noteq> Finite 0"
proof (induction tps arbitrary: st)
  case Nil
  then show ?case by simp
next
  case (Cons tp tps)
  obtain b m where st: "st = (b, m)" by (cases st)
  show ?case
    using Cons.prems Cons.IH [of "(msPerBeat tp, m)"]
      Cons.IH [of "(b, velocityOf (msPerBeat tp))"] velocityOf_nonzero
    by (simp add: st)
qed

lemma loadObject_passed_defined:
  assumes "loadObject d tps obj = Inr h"
  shows "getPassedSliderTicks h e \<noteq> None"
proof (cases "pType obj = Slider")
  case False
  with assms have "ticksPerSlide h = 0"
    by (auto simp: loadObject_def Let_def)
  then show ?thesis by (simp add: getPassedSliderTicks_def)
next
  case True
  with assms obtain duration perSlide where
    h: "slideDuration h = duration" "ticksPerSlide h = perSlide"
       "tickSpacing h = (if perSlide > 0 then duration / real_of_int (perSlide + 1) else 0)"
    by (auto simp: loadObject_def Let_def split: sum.splits)
  show ?thesis
  proof (cases "ticksPerSlide h \<le> 0 \<or> tickSpacing h \<le> 0")
    case True
    then show ?thesis by (simp add: getPassedSliderTicks_def)
  next
    case False
    with h have "0 < perSlide" "0 < duration / real_of_int (perSlide + 1)"
      by auto
    then have "0 < duration"
      by (simp add: zero_less_divide_iff)
    with h(1) have "slideDuration h \<noteq> 0" by simp
    with False show ?thesis by (simp add: getPassedSliderTicks_def Let_def)
  qed
qed

end
